theory Spec2Isabelle
  imports Complex_Main "HOL-Library.Sublist"
begin

section \<open>Upload client\<close>

text \<open>
  The module \<^verbatim>\<open>lib/uploadClient\<close> posts a photo to an API endpoint. A browser
  \<^verbatim>\<open>File\<close> is a record of its name, MIME type and byte size. The JavaScript result
  object \<^verbatim>\<open>{ data, error }\<close> is a record of two options (\<^verbatim>\<open>null\<close> is \<open>None\<close>).
\<close>

record browser_file =
  file_name :: string
  file_type :: string
  file_size :: nat

record upload_error =
  message :: string
  details :: "string option"

record 'd upload_result =
  data :: "'d option"
  error :: "upload_error option"

text \<open>The four fields appended to the \<^verbatim>\<open>FormData\<close> body of the POST request.\<close>

record upload_request =
  form_file :: browser_file
  form_productId :: string
  form_sku :: string
  form_isFirst :: string

text \<open>
  What \<^verbatim>\<open>fetch\<close> followed by \<^verbatim>\<open>response.json()\<close> can do: reject (the exception's
  message), or deliver \<^verbatim>\<open>response.ok\<close> and the parsed body's \<^verbatim>\<open>error\<close>,
  \<^verbatim>\<open>details\<close> and \<^verbatim>\<open>data\<close> fields.
\<close>

datatype 'd fetch_outcome =
    Thrown string
  | Responded bool "string option" "string option" "'d option"

text \<open>
  The network: the remote endpoint's state, of any type \<open>'w\<close>, and the list of the
  requests sent to it so far, oldest first. The endpoint itself is a parameter
  \<open>fetch\<close> of the client functions.
\<close>

record 'w network =
  server :: 'w
  sent :: "upload_request list"

text \<open>The exported \<^verbatim>\<open>uploadConfig\<close> object.\<close>

definition maxFileSize :: nat where
  "maxFileSize = 10 * 1024 * 1024"

definition allowedTypes :: "string list" where
  "allowedTypes = [''image/jpeg'', ''image/jpg'', ''image/png'', ''image/webp'']"

definition maxFiles :: nat where
  "maxFiles = 10"

text \<open>\<^verbatim>\<open>a || b\<close> on strings that may be undefined: the empty string is falsy.\<close>

definition or_default :: "string option \<Rightarrow> string \<Rightarrow> string" where
  "or_default a b = (case a of None \<Rightarrow> b | Some s \<Rightarrow> if s = [] then b else s)"

text \<open>
  \<^verbatim>\<open>uploadProductPhotoSecure(file, productId, sku, isFirst)\<close>. Every \<^verbatim>\<open>return\<close> of
  the source is a branch; the \<^verbatim>\<open>catch\<close> block is the \<open>Thrown\<close> branch. The three
  local checks return before the request is built.
\<close>

definition uploadProductPhotoSecure ::
  "('w \<Rightarrow> upload_request \<Rightarrow> 'd fetch_outcome \<times> 'w) \<Rightarrow> browser_file option \<Rightarrow> string option \<Rightarrow>
     string \<Rightarrow> bool \<Rightarrow> 'w network \<Rightarrow> 'd upload_result \<times> 'w network" where
  "uploadProductPhotoSecure fetch file productId sku isFirst net =
    (case file of
       None \<Rightarrow>
         (\<lparr>data = None, error = Some \<lparr>message = ''Nessun file fornito'', details = None\<rparr>\<rparr>, net)
     | Some f \<Rightarrow>
         if \<not> prefix ''image/'' (file_type f) then
           (\<lparr>data = None,
             error = Some \<lparr>message = ''Solo immagini sono permesse'', details = None\<rparr>\<rparr>, net)
         else if file_size f > 10 * 1024 * 1024 then
           (\<lparr>data = None,
             error = Some \<lparr>message = ''File troppo grande (max 10MB)'', details = None\<rparr>\<rparr>, net)
         else
           let formData = \<lparr>form_file = f,
                 form_productId = or_default productId [],
                 form_sku = sku,
                 form_isFirst = (if isFirst then ''true'' else ''false'')\<rparr>;
               (outcome, w') = fetch (server net) formData;
               net' = \<lparr>server = w', sent = sent net @ [formData]\<rparr>
           in (case outcome of
                Thrown msg \<Rightarrow>
                  (\<lparr>data = None,
                    error = Some \<lparr>message = ''Errore di rete'', details = Some msg\<rparr>\<rparr>, net')
              | Responded ok err det d \<Rightarrow>
                  if \<not> ok then
                    (\<lparr>data = None,
                      error = Some \<lparr>message = or_default err ''Errore upload'',
                        details = det\<rparr>\<rparr>, net')
                  else (\<lparr>data = d, error = None\<rparr>, net')))"

text \<open>
  \<^verbatim>\<open>uploadMultiplePhotos(files, productId, sku)\<close>: the \<^verbatim>\<open>for\<close> loop over the index
  \<open>i\<close>, with the two result arrays and the network threaded through. An entry of
  \<open>errors\<close> is the pair of the file's name and the error object.
\<close>

record 'd multi_result =
  successes :: "'d option list"
  errors :: "(string \<times> upload_error) list"

function upload_loop ::
  "('w \<Rightarrow> upload_request \<Rightarrow> 'd fetch_outcome \<times> 'w) \<Rightarrow> browser_file list \<Rightarrow> string option \<Rightarrow> string \<Rightarrow>
     nat \<Rightarrow> 'd multi_result \<Rightarrow> 'w network \<Rightarrow> 'd multi_result \<times> 'w network" where
  "upload_loop fetch files productId sku i acc net =
    (if i < length files then
       let file = files ! i;
           isFirst = (i = 0);
           r = uploadProductPhotoSecure fetch (Some file) productId sku isFirst net
       in (case error (fst r) of
             Some e \<Rightarrow>
               upload_loop fetch files productId sku (Suc i)
                 (acc\<lparr>errors := errors acc @ [(file_name file, e)]\<rparr>) (snd r)
           | None \<Rightarrow>
               upload_loop fetch files productId sku (Suc i)
                 (acc\<lparr>successes := successes acc @ [data (fst r)]\<rparr>) (snd r))
     else (acc, net))"
  by pat_completeness auto
termination
  by (relation "measure (\<lambda>(fetch, files, productId, sku, i, acc, net). length files - i)") auto

definition uploadMultiplePhotos ::
  "('w \<Rightarrow> upload_request \<Rightarrow> 'd fetch_outcome \<times> 'w) \<Rightarrow> browser_file list \<Rightarrow> string option \<Rightarrow> string \<Rightarrow>
     'w network \<Rightarrow> 'd multi_result \<times> 'w network" where
  "uploadMultiplePhotos fetch files productId sku net =
     upload_loop fetch files productId sku 0 \<lparr>successes = [], errors = []\<rparr> net"

section \<open>Image cropper\<close>

text \<open>
  The component \<^verbatim>\<open>ImageCropper\<close>. In the handlers JavaScript numbers are exact
  reals; the rounding of IEEE doubles comes in with the canvas sizes at the end of this
  section. The component's \<^verbatim>\<open>useState\<close> cells are the fields of one record;
  \<open>imageLoaded\<close> says that \<^verbatim>\<open>imageRef.current\<close> is set.
\<close>

record crop_area =
  crop_x :: real
  crop_y :: real
  crop_width :: real
  crop_height :: real

record point =
  point_x :: real
  point_y :: real

record dimensions =
  dim_width :: real
  dim_height :: real

record cropper_state =
  cropArea :: crop_area
  isDragging :: bool
  dragStart :: point
  imageSize :: dimensions
  scale :: real
  quality :: real
  outputSize :: dimensions
  imageLoaded :: bool
  isProcessing :: bool

text \<open>The initial values given to \<^verbatim>\<open>useState\<close>.\<close>

definition cropper_init :: cropper_state where
  "cropper_init =
     \<lparr>cropArea = \<lparr>crop_x = 0, crop_y = 0, crop_width = 0, crop_height = 0\<rparr>,
      isDragging = False,
      dragStart = \<lparr>point_x = 0, point_y = 0\<rparr>,
      imageSize = \<lparr>dim_width = 0, dim_height = 0\<rparr>,
      scale = 1,
      quality = 0.8,
      outputSize = \<lparr>dim_width = 800, dim_height = 600\<rparr>,
      imageLoaded = False,
      isProcessing = False\<rparr>"

text \<open>
  \<^verbatim>\<open>img.onload\<close> of the image-load effect, for a decoded image of \<open>img_width\<close> by
  \<open>img_height\<close> pixels.
\<close>

definition onload :: "real \<Rightarrow> real \<Rightarrow> cropper_state \<Rightarrow> cropper_state" where
  "onload img_width img_height st =
     (let margin = 0.1 in
      st\<lparr>imageSize := \<lparr>dim_width = img_width, dim_height = img_height\<rparr>,
         cropArea := \<lparr>crop_x = img_width * margin,
                      crop_y = img_height * margin,
                      crop_width = img_width * (1 - 2 * margin),
                      crop_height = img_height * (1 - 2 * margin)\<rparr>,
         imageLoaded := True\<rparr>)"

text \<open>
  A mouse event's client coordinates, and what the handlers read from the canvas: its
  pixel size and its bounding client rectangle.
\<close>

record mouse_event =
  clientX :: real
  clientY :: real

record canvas_view =
  canvas_width :: real
  canvas_height :: real
  rect_left :: real
  rect_top :: real
  rect_width :: real
  rect_height :: real

text \<open>The pointer position in canvas pixels, as both mouse handlers compute it.\<close>

definition pointer_x :: "canvas_view \<Rightarrow> mouse_event \<Rightarrow> real" where
  "pointer_x canvas e =
     (let scaleX = canvas_width canvas / rect_width canvas
      in (clientX e - rect_left canvas) * scaleX)"

definition pointer_y :: "canvas_view \<Rightarrow> mouse_event \<Rightarrow> real" where
  "pointer_y canvas e =
     (let scaleY = canvas_height canvas / rect_height canvas
      in (clientY e - rect_top canvas) * scaleY)"

definition handleMouseDown :: "canvas_view \<Rightarrow> mouse_event \<Rightarrow> cropper_state \<Rightarrow> cropper_state" where
  "handleMouseDown canvas e st =
     (let x = pointer_x canvas e;
          y = pointer_y canvas e
      in st\<lparr>isDragging := True,
            dragStart := \<lparr>point_x = x, point_y = y\<rparr>,
            cropArea := (cropArea st)\<lparr>crop_x := x, crop_y := y, crop_width := 0, crop_height := 0\<rparr>\<rparr>)"

definition handleMouseMove :: "canvas_view \<Rightarrow> mouse_event \<Rightarrow> cropper_state \<Rightarrow> cropper_state" where
  "handleMouseMove canvas e st =
     (if \<not> isDragging st then st
      else
        let x = pointer_x canvas e;
            y = pointer_y canvas e;
            width = \<bar>x - point_x (dragStart st)\<bar>;
            height = \<bar>y - point_y (dragStart st)\<bar>;
            startX = min x (point_x (dragStart st));
            startY = min y (point_y (dragStart st))
        in st\<lparr>cropArea := \<lparr>crop_x = startX, crop_y = startY,
                              crop_width = width, crop_height = height\<rparr>\<rparr>)"

definition handleMouseUp :: "cropper_state \<Rightarrow> cropper_state" where
  "handleMouseUp st = st\<lparr>isDragging := False\<rparr>"

text \<open>
  One render of the crop onto a canvas: the source rectangle and the destination size
  passed to \<^verbatim>\<open>drawImage\<close>, and the quality passed to \<^verbatim>\<open>toBlob\<close>. The destination
  size is also what the code assigns to \<^verbatim>\<open>canvas.width\<close> and \<^verbatim>\<open>canvas.height\<close>.
\<close>

record render =
  src_x :: real
  src_y :: real
  src_width :: real
  src_height :: real
  finalWidth :: real
  finalHeight :: real
  jpeg_quality :: real

text \<open>
  \<^verbatim>\<open>updatePreview\<close>: \<open>None\<close> is the early \<^verbatim>\<open>return\<close> (a number is falsy when it is
  zero). The function reads \<open>cropArea\<close>, \<open>outputSize\<close> and \<open>quality\<close> only.
\<close>

definition updatePreview :: "cropper_state \<Rightarrow> render option" where
  "updatePreview st =
     (if \<not> imageLoaded st \<or> crop_width (cropArea st) = 0 \<or> crop_height (cropArea st) = 0
      then None
      else
        let aspectRatio = crop_width (cropArea st) / crop_height (cropArea st);
            finalWidth0 = dim_width (outputSize st);
            finalHeight0 = dim_height (outputSize st);
            (finalWidth1, finalHeight1) =
              (if finalWidth0 / finalHeight0 > aspectRatio
               then (finalHeight0 * aspectRatio, finalHeight0)
               else (finalWidth0, finalWidth0 / aspectRatio))
        in Some \<lparr>src_x = crop_x (cropArea st), src_y = crop_y (cropArea st),
                  src_width = crop_width (cropArea st), src_height = crop_height (cropArea st),
                  finalWidth = finalWidth1, finalHeight = finalHeight1,
                  jpeg_quality = quality st\<rparr>)"

text \<open>
  What \<^verbatim>\<open>handleConfirm\<close> does, in order: an error toast, a render, and the call of the
  \<^verbatim>\<open>onConfirm\<close> callback with the encoded blob. The encoder \<^verbatim>\<open>canvas.toBlob\<close> is a
  parameter: it yields a blob or \<^verbatim>\<open>null\<close>.
\<close>

datatype 'b cropper_effect =
    ToastError string
  | DrawImage render
  | OnConfirm 'b

definition handleConfirm ::
  "(render \<Rightarrow> 'b option) \<Rightarrow> cropper_state \<Rightarrow> cropper_state \<times> 'b cropper_effect list" where
  "handleConfirm toBlob st =
     (if \<not> imageLoaded st \<or> crop_width (cropArea st) = 0 \<or> crop_height (cropArea st) = 0
      then (st, [ToastError ''Seleziona un'area da ritagliare''])
      else
        let aspectRatio = crop_width (cropArea st) / crop_height (cropArea st);
            finalWidth0 = dim_width (outputSize st) * scale st;
            finalHeight0 = dim_height (outputSize st) * scale st;
            (finalWidth1, finalHeight1) =
              (if finalWidth0 / finalHeight0 > aspectRatio
               then (finalHeight0 * aspectRatio, finalHeight0)
               else (finalWidth0, finalWidth0 / aspectRatio));
            r = \<lparr>src_x = crop_x (cropArea st), src_y = crop_y (cropArea st),
                  src_width = crop_width (cropArea st), src_height = crop_height (cropArea st),
                  finalWidth = finalWidth1, finalHeight = finalHeight1,
                  jpeg_quality = quality st\<rparr>
        in (st\<lparr>isProcessing := False\<rparr>,
            DrawImage r # (case toBlob r of Some blob \<Rightarrow> [OnConfirm blob] | None \<Rightarrow> [])))"

text \<open>
  The size of the canvas in double arithmetic. A JavaScript number is an IEEE double, and
  the result of an arithmetic operation is the exact result rounded to a double: \<open>fl\<close>
  is that rounding, a parameter of the definitions. \<open>fit_aspect\<close> is the block of
  \<^verbatim>\<open>updatePreview\<close> and \<^verbatim>\<open>handleConfirm\<close> that fits the requested size to the crop's
  aspect ratio, with each division and product rounded.
\<close>

definition fit_aspect :: "(real \<Rightarrow> real) \<Rightarrow> real \<Rightarrow> real \<Rightarrow> real \<Rightarrow> real \<Rightarrow> real \<times> real" where
  "fit_aspect fl cropWidth cropHeight finalWidth0 finalHeight0 =
     (let aspectRatio = fl (cropWidth / cropHeight)
      in if fl (finalWidth0 / finalHeight0) > aspectRatio
         then (fl (finalHeight0 * aspectRatio), finalHeight0)
         else (finalWidth0, fl (finalWidth0 / aspectRatio)))"

text \<open>
  Assigning a double to \<^verbatim>\<open>canvas.width\<close> or \<^verbatim>\<open>canvas.height\<close> keeps its integer part
  (for the non-negative sizes below \<open>2^31\<close> that a canvas can have).
\<close>

definition canvas_pixels :: "real \<Rightarrow> int" where
  "canvas_pixels v = \<lfloor>v\<rfloor>"

text \<open>
  The pixel width and height that \<^verbatim>\<open>updatePreview\<close> gives the preview canvas and
  \<^verbatim>\<open>handleConfirm\<close> gives the output canvas; \<open>None\<close> is the early \<^verbatim>\<open>return\<close>.
\<close>

definition preview_canvas :: "(real \<Rightarrow> real) \<Rightarrow> cropper_state \<Rightarrow> (int \<times> int) option" where
  "preview_canvas fl st =
     (if \<not> imageLoaded st \<or> crop_width (cropArea st) = 0 \<or> crop_height (cropArea st) = 0
      then None
      else
        let (finalWidth1, finalHeight1) =
              fit_aspect fl (crop_width (cropArea st)) (crop_height (cropArea st))
                (dim_width (outputSize st)) (dim_height (outputSize st))
        in Some (canvas_pixels finalWidth1, canvas_pixels finalHeight1))"

definition confirm_canvas :: "(real \<Rightarrow> real) \<Rightarrow> cropper_state \<Rightarrow> (int \<times> int) option" where
  "confirm_canvas fl st =
     (if \<not> imageLoaded st \<or> crop_width (cropArea st) = 0 \<or> crop_height (cropArea st) = 0
      then None
      else
        let (finalWidth1, finalHeight1) =
              fit_aspect fl (crop_width (cropArea st)) (crop_height (cropArea st))
                (fl (dim_width (outputSize st) * scale st))
                (fl (dim_height (outputSize st) * scale st))
        in Some (canvas_pixels finalWidth1, canvas_pixels finalHeight1))"

text \<open>
  Rounding to nearest on three ranges of doubles: from 1/2 to 1 the doubles are the
  multiples of \<open>2^-53\<close>, from 1 to 2 those of \<open>2^-52\<close>, and from 256 to 512 those of
  \<open>2^-44\<close>. Numbers outside these ranges are left as they are. It is the rounding with
  which the size computation is run on an example below.
\<close>

definition nearest :: "nat \<Rightarrow> real \<Rightarrow> real" where
  "nearest k x = real_of_int \<lfloor>x * 2 ^ k + 1 / 2\<rfloor> / 2 ^ k"

definition fl_ranges :: "real \<Rightarrow> real" where
  "fl_ranges x =
     (if 1 / 2 \<le> x \<and> x < 1 then nearest 53 x
      else if 1 \<le> x \<and> x < 2 then nearest 52 x
      else if 256 \<le> x \<and> x < 512 then nearest 44 x
      else x)"

section \<open>Camera components\<close>

text \<open>
  A \<^verbatim>\<open>MediaStream\<close> is known by the tracks that \<^verbatim>\<open>getTracks()\<close> returns, each a
  track identifier. What a camera handler does to the outside is a list of effects, in
  the order of the source: a \<^verbatim>\<open>track.stop()\<close> call, a \<^verbatim>\<open>getUserMedia\<close> request
  (facing mode and ideal resolution), the stream the request resolves to, an error toast.
\<close>

record mediaStream =
  getTracks :: "nat list"

datatype facing = User | Environment

datatype step = Camera | Editing | Preview

datatype camera_effect =
    TrackStop nat
  | GetUserMedia facing nat nat
  | StreamGranted mediaStream
  | CameraToast string

text \<open>
  The camera hardware: the set of tracks that are capturing. A granted stream's tracks
  start capturing, a stopped track ends, and \<open>replay\<close> runs a list of effects.
\<close>

fun hardware :: "nat set \<Rightarrow> camera_effect \<Rightarrow> nat set" where
  "hardware live (TrackStop t) = live - {t}"
| "hardware live (GetUserMedia f w h) = live"
| "hardware live (StreamGranted s) = live \<union> set (getTracks s)"
| "hardware live (CameraToast m) = live"

definition replay :: "nat set \<Rightarrow> camera_effect list \<Rightarrow> nat set" where
  "replay live effects = foldl hardware live effects"

text \<open>
  How \<^verbatim>\<open>navigator.mediaDevices.getUserMedia\<close> ends: with a stream, or rejected with
  an error of the given name; \<open>Unsupported\<close> is a browser without the function, where
  no request is made.
\<close>

datatype media_outcome = Granted mediaStream | Rejected string | Unsupported

subsection \<open>CameraCapture\<close>

text \<open>
  The component's \<^verbatim>\<open>useState\<close> cells; the captured image is of any type \<open>'i\<close>. The
  video element and the object URLs of the component are left out.

  A callback made by \<^verbatim>\<open>useCallback\<close> reads the values of the render that made it
  and writes the current state through the setters. So a handler takes two states: the
  state of the render that made the callback (its closure), and the current state that
  its setters change. A callback made by the latest render has the current state as its
  closure.
\<close>

record 'i capture_state =
  stream :: "mediaStream option"
  capturedImage :: "'i option"
  isLoading :: bool
  facingMode :: facing
  currentStep :: step

text \<open>The initial values given to \<^verbatim>\<open>useState\<close>.\<close>

definition capture_init :: "'i capture_state" where
  "capture_init =
     \<lparr>stream = None, capturedImage = None, isLoading = False, facingMode = Environment,
      currentStep = Camera\<rparr>"

text \<open>
  \<^verbatim>\<open>startCamera\<close> is cut at its \<^verbatim>\<open>await\<close>. The part before it stops the tracks of
  the closure's stream and makes the request with the closure's facing mode (no request
  in a browser without \<^verbatim>\<open>getUserMedia\<close>, where the call throws). The part after it
  runs when the request has ended: it stores a granted stream, or shows the toast of the
  \<^verbatim>\<open>catch\<close> block. Other handlers can run between the two parts.
\<close>

definition startCamera_begin ::
  "bool \<Rightarrow> 'i capture_state \<Rightarrow> 'i capture_state \<Rightarrow> 'i capture_state \<times> camera_effect list" where
  "startCamera_begin supported closure st =
     (let stops = (case stream closure of
                     Some s \<Rightarrow> map TrackStop (getTracks s)
                   | None \<Rightarrow> [])
      in (st\<lparr>isLoading := True\<rparr>,
          stops @ (if supported then [GetUserMedia (facingMode closure) 1920 1080] else [])))"

definition startCamera_end ::
  "media_outcome \<Rightarrow> 'i capture_state \<Rightarrow> 'i capture_state \<times> camera_effect list" where
  "startCamera_end outcome st =
     (case outcome of
        Granted mediaStream \<Rightarrow>
          (st\<lparr>stream := Some mediaStream, isLoading := False\<rparr>, [StreamGranted mediaStream])
      | Rejected name \<Rightarrow>
          (st\<lparr>isLoading := False\<rparr>, [CameraToast ''Impossibile accedere alla fotocamera''])
      | Unsupported \<Rightarrow>
          (st\<lparr>isLoading := False\<rparr>, [CameraToast ''Impossibile accedere alla fotocamera'']))"

definition stopCamera :: "'i capture_state \<Rightarrow> 'i capture_state \<Rightarrow> 'i capture_state \<times> camera_effect list" where
  "stopCamera closure st =
     (case stream closure of
        Some s \<Rightarrow> (st\<lparr>stream := None\<rparr>, map TrackStop (getTracks s))
      | None \<Rightarrow> (st, []))"

text \<open>\<^verbatim>\<open>switchCamera\<close> updates the facing mode from its current value.\<close>

definition switchCamera :: "'i capture_state \<Rightarrow> 'i capture_state" where
  "switchCamera st =
     st\<lparr>facingMode := (if facingMode st = User then Environment else User)\<rparr>"

text \<open>
  The effect that opens the camera. It runs after a render in which \<open>isOpen\<close>, the step,
  the captured image or \<^verbatim>\<open>startCamera\<close> (so the facing mode or the stream) has
  changed, with the values and the \<^verbatim>\<open>startCamera\<close> of that render.
\<close>

definition openEffect :: "bool \<Rightarrow> 'i capture_state \<Rightarrow> 'i capture_state \<times> camera_effect list" where
  "openEffect isOpen st =
     (if isOpen \<and> currentStep st = Camera \<and> capturedImage st = None
      then startCamera_begin True st st
      else (st, []))"

text \<open>
  \<^verbatim>\<open>retakePhoto\<close> drops the captured image, goes back to the camera step and calls the
  \<^verbatim>\<open>startCamera\<close> of its own render.
\<close>

definition retakePhoto :: "'i capture_state \<Rightarrow> 'i capture_state \<Rightarrow> 'i capture_state \<times> camera_effect list" where
  "retakePhoto closure st =
     (let st1 = (case capturedImage closure of
                   Some img \<Rightarrow> st\<lparr>capturedImage := None\<rparr>
                 | None \<Rightarrow> st)
      in startCamera_begin True closure (st1\<lparr>currentStep := Camera\<rparr>))"

text \<open>
  The cleanup of the effect with no dependencies runs at unmount and calls the
  \<^verbatim>\<open>stopCamera\<close> of the first render, whose state is the initial one.
\<close>

definition unmountCleanup :: "'i capture_state \<Rightarrow> 'i capture_state \<times> camera_effect list" where
  "unmountCleanup st = stopCamera capture_init st"

subsection \<open>CameraModal\<close>

record 'b modal_state =
  modal_isLoading :: bool
  modal_error :: "string option"
  isActive :: bool
  capturing :: bool
  modal_currentStep :: step
  capturedBlob :: "'b option"
  streamRef :: "mediaStream option"
  modal_videoRef :: "mediaStream option option"

text \<open>The initial values given to \<^verbatim>\<open>useState\<close> and \<^verbatim>\<open>useRef\<close>.\<close>

definition modal_init :: "'b modal_state" where
  "modal_init =
     \<lparr>modal_isLoading = False, modal_error = None, isActive = False, capturing = False,
      modal_currentStep = Camera, capturedBlob = None, streamRef = None,
      modal_videoRef = None\<rparr>"

text \<open>
  \<^verbatim>\<open>startCamera\<close> of the modal, up to the end of its \<^verbatim>\<open>try\<close>/\<^verbatim>\<open>catch\<close>/\<^verbatim>\<open>finally\<close>.
  It requests the back camera without looking at \<open>streamRef\<close>. \<open>play\<close> is how
  \<^verbatim>\<open>video.play()\<close> ends when a video element is mounted: \<open>None\<close> when it resolves,
  the error's name when it rejects. The \<^verbatim>\<open>catch\<close> block picks the message by the
  error's name. The listeners and the timer that later set \<open>isActive\<close> are the separate
  step \<open>videoReady\<close>.
\<close>

definition modal_errorMessage :: "string \<Rightarrow> string" where
  "modal_errorMessage name =
     (if name = ''NotAllowedError'' then ''Permesso fotocamera negato''
      else if name = ''NotFoundError'' then ''Nessuna fotocamera trovata''
      else if name = ''NotReadableError'' then ''Fotocamera gi'' @ [CHR 0xC3, CHR 0xA0] @ '' in uso''
      else ''Errore nell'avvio della fotocamera'')"

definition modal_startCamera ::
  "media_outcome \<Rightarrow> string option \<Rightarrow> 'b modal_state \<Rightarrow> 'b modal_state \<times> camera_effect list" where
  "modal_startCamera outcome play st =
     (let request = GetUserMedia Environment 1280 720
      in case outcome of
           Unsupported \<Rightarrow>
             (st\<lparr>modal_isLoading := False, modal_error := Some (modal_errorMessage ''Error'')\<rparr>,
              [CameraToast (modal_errorMessage ''Error'')])
         | Rejected name \<Rightarrow>
             (st\<lparr>modal_isLoading := False, modal_error := Some (modal_errorMessage name)\<rparr>,
              [request, CameraToast (modal_errorMessage name)])
         | Granted s \<Rightarrow>
             (case modal_videoRef st of
                None \<Rightarrow>
                  (st\<lparr>modal_isLoading := False, modal_error := None, streamRef := Some s\<rparr>,
                   [request, StreamGranted s])
              | Some src \<Rightarrow>
                  (case play of
                     None \<Rightarrow>
                       (st\<lparr>modal_isLoading := False, modal_error := None, streamRef := Some s,
                           modal_videoRef := Some (Some s)\<rparr>,
                        [request, StreamGranted s])
                   | Some name \<Rightarrow>
                       (st\<lparr>modal_isLoading := False,
                           modal_error := Some (modal_errorMessage name),
                           streamRef := Some s, modal_videoRef := Some (Some s)\<rparr>,
                        [request, StreamGranted s, CameraToast (modal_errorMessage name)]))))"

definition videoReady :: "'b modal_state \<Rightarrow> 'b modal_state" where
  "videoReady st = st\<lparr>isActive := True\<rparr>"

definition modal_stopCamera :: "'b modal_state \<Rightarrow> 'b modal_state \<times> camera_effect list" where
  "modal_stopCamera st =
     (let stops = (case streamRef st of
                     Some s \<Rightarrow> map TrackStop (getTracks s)
                   | None \<Rightarrow> [])
      in (st\<lparr>streamRef := None,
             modal_videoRef := (case modal_videoRef st of
                                  Some src \<Rightarrow> Some None
                                | None \<Rightarrow> None),
             isActive := False,
             modal_error := None\<rparr>,
          stops))"

section \<open>Photo table\<close>

text \<open>
  The rows of the table \<^verbatim>\<open>product_photos\<close> that the database helper reads and writes.
  An \<^verbatim>\<open>update(...).eq(column, value)\<close> changes every row whose column has the value.
  A remote update is applied, or it fails and changes nothing: the client library then
  resolves to a result with the error set and does not throw.
\<close>

record product_photo =
  photo_id :: string
  product_id :: string
  is_primary :: bool

datatype remote_update = Applied | Failed string

definition update_is_primary ::
  "bool \<Rightarrow> (product_photo \<Rightarrow> bool) \<Rightarrow> product_photo list \<Rightarrow> product_photo list" where
  "update_is_primary v matches photos =
     map (\<lambda>row. if matches row then row\<lparr>is_primary := v\<rparr> else row) photos"

text \<open>
  \<^verbatim>\<open>db.setPrimaryPhoto(photoId, productId)\<close>, with how each of its two remote updates
  ends. The result of the clearing update is awaited and dropped; the error returned is
  that of the second update.
\<close>

definition setPrimaryPhoto ::
  "bool \<Rightarrow> remote_update \<Rightarrow> remote_update \<Rightarrow> string \<Rightarrow> string \<Rightarrow> product_photo list \<Rightarrow>
     string option \<times> product_photo list" where
  "setPrimaryPhoto isSupabaseConfigured clearing setting photoId productId photos =
     (if \<not> isSupabaseConfigured then (Some ''Supabase non configurato'', photos)
      else
        let cleared = (case clearing of
                         Applied \<Rightarrow>
                           update_is_primary False (\<lambda>row. product_id row = productId) photos
                       | Failed e \<Rightarrow> photos)
        in (case setting of
              Applied \<Rightarrow>
                (None, update_is_primary True (\<lambda>row. photo_id row = photoId) cleared)
            | Failed e \<Rightarrow> (Some e, cleared)))"

text \<open>
  \<^verbatim>\<open>setPrimaryPhotoSecure(photoId, productId)\<close> of the upload client posts one JSON
  body to the photo-actions endpoint and maps the response to a result object. What the
  endpoint does to the table is not part of this repository's client code.
\<close>

record photo_action =
  action :: string
  action_photoId :: string
  action_productId :: string

definition setPrimaryPhotoSecure ::
  "('w \<Rightarrow> photo_action \<Rightarrow> 'd fetch_outcome \<times> 'w) \<Rightarrow> string \<Rightarrow> string \<Rightarrow> 'w \<Rightarrow>
     'd upload_result \<times> 'w \<times> photo_action list" where
  "setPrimaryPhotoSecure fetch photoId productId w =
     (let body = \<lparr>action = ''setPrimary'', action_photoId = photoId,
                   action_productId = productId\<rparr>;
          (outcome, w') = fetch w body
      in (case outcome of
            Thrown msg \<Rightarrow>
              (\<lparr>data = None,
                error = Some \<lparr>message = ''Errore di rete'', details = Some msg\<rparr>\<rparr>, w', [body])
          | Responded ok err det d \<Rightarrow>
              if \<not> ok then
                (\<lparr>data = None,
                  error = Some \<lparr>message = or_default err ''Errore nell'impostazione foto primaria'',
                    details = None\<rparr>\<rparr>, w', [body])
              else (\<lparr>data = d, error = None\<rparr>, w', [body])))"

section \<open>Properties of the upload client\<close>

text \<open>The requests a single upload adds to the network.\<close>

lemma upload_sent:
  "sent (snd (uploadProductPhotoSecure fetch (Some f) productId sku isFirst net)) =
     sent net @
       (if prefix ''image/'' (file_type f) \<and> file_size f \<le> maxFileSize
        then [\<lparr>form_file = f, form_productId = or_default productId [], form_sku = sku,
               form_isFirst = (if isFirst then ''true'' else ''false'')\<rparr>]
        else [])"
  by (simp add: uploadProductPhotoSecure_def maxFileSize_def Let_def
      split: prod.split fetch_outcome.split)

declare upload_loop.simps [simp del]

lemma upload_loop_done:
  "\<not> i < length files \<Longrightarrow> upload_loop fetch files productId sku i acc net = (acc, net)"
  by (subst upload_loop.simps) simp

lemma upload_loop_error:
  assumes "i < length files"
    and "error (fst (uploadProductPhotoSecure fetch (Some (files ! i)) productId sku (i = 0) net)) = Some e"
  shows "upload_loop fetch files productId sku i acc net =
     upload_loop fetch files productId sku (Suc i)
       (acc\<lparr>errors := errors acc @ [(file_name (files ! i), e)]\<rparr>)
       (snd (uploadProductPhotoSecure fetch (Some (files ! i)) productId sku (i = 0) net))"
  using assms by (subst upload_loop.simps) (simp add: Let_def)

lemma upload_loop_success:
  assumes "i < length files"
    and "error (fst (uploadProductPhotoSecure fetch (Some (files ! i)) productId sku (i = 0) net)) = None"
  shows "upload_loop fetch files productId sku i acc net =
     upload_loop fetch files productId sku (Suc i)
       (acc\<lparr>successes := successes acc @
          [data (fst (uploadProductPhotoSecure fetch (Some (files ! i)) productId sku (i = 0) net))]\<rparr>)
       (snd (uploadProductPhotoSecure fetch (Some (files ! i)) productId sku (i = 0) net))"
  using assms by (subst upload_loop.simps) (simp add: Let_def)

lemma upload_loop_count:
  "i \<le> length files \<Longrightarrow>
   length (successes (fst (upload_loop fetch files productId sku i acc net))) +
   length (errors (fst (upload_loop fetch files productId sku i acc net))) =
   length (successes acc) + length (errors acc) + (length files - i)"
proof (induction fetch files productId sku i acc net rule: upload_loop.induct)
  case (1 fetch files productId sku i acc net)
  show ?case
  proof (cases "i < length files")
    case False
    with "1.prems" show ?thesis by (simp add: upload_loop_done)
  next
    case True
    let ?r = "uploadProductPhotoSecure fetch (Some (files ! i)) productId sku (i = 0) net"
    show ?thesis
    proof (cases "error (fst ?r)")
      case None
      with True "1.IH"(1) [OF True refl refl refl None] show ?thesis
        by (simp add: upload_loop_success)
    next
      case (Some e)
      with True "1.IH"(2) [OF True refl refl refl Some] show ?thesis
        by (simp add: upload_loop_error)
    qed
  qed
qed

lemma upload_loop_sent:
  "sent (snd (upload_loop fetch files productId sku i acc net)) =
     sent net @
       map (\<lambda>(j, f). \<lparr>form_file = f, form_productId = or_default productId [], form_sku = sku,
               form_isFirst = (if j = 0 then ''true'' else ''false'')\<rparr>)
         (filter (\<lambda>(j, f). prefix ''image/'' (file_type f) \<and> file_size f \<le> maxFileSize)
            (enumerate i (drop i files)))"
proof (induction fetch files productId sku i acc net rule: upload_loop.induct)
  case (1 fetch files productId sku i acc net)
  show ?case
  proof (cases "i < length files")
    case False
    then show ?thesis by (simp add: upload_loop_done)
  next
    case True
    let ?r = "uploadProductPhotoSecure fetch (Some (files ! i)) productId sku (i = 0) net"
    from True have dr: "drop i files = files ! i # drop (Suc i) files"
      by (simp add: Cons_nth_drop_Suc)
    show ?thesis
    proof (cases "error (fst ?r)")
      case None
      with True "1.IH"(1) [OF True refl refl refl None] show ?thesis
        by (simp add: upload_loop_success upload_sent dr)
    next
      case (Some e)
      with True "1.IH"(2) [OF True refl refl refl Some] show ?thesis
        by (simp add: upload_loop_error upload_sent dr)
    qed
  qed
qed


lemma upload_loop_foldl:
  "upload_loop fetch files productId sku i acc net =
     foldl (\<lambda>(acc, net) (j, f).
              let r = uploadProductPhotoSecure fetch (Some f) productId sku (j = 0) net
              in (case error (fst r) of
                    Some e \<Rightarrow> acc\<lparr>errors := errors acc @ [(file_name f, e)]\<rparr>
                  | None \<Rightarrow> acc\<lparr>successes := successes acc @ [data (fst r)]\<rparr>,
                  snd r))
       (acc, net) (enumerate i (drop i files))"
proof (induction fetch files productId sku i acc net rule: upload_loop.induct)
  case (1 fetch files productId sku i acc net)
  show ?case
  proof (cases "i < length files")
    case False
    then show ?thesis by (simp add: upload_loop_done)
  next
    case True
    let ?r = "uploadProductPhotoSecure fetch (Some (files ! i)) productId sku (i = 0) net"
    let ?step = "\<lambda>(acc, net) (j, f).
              let r = uploadProductPhotoSecure fetch (Some f) productId sku (j = 0) net
              in (case error (fst r) of
                    Some e \<Rightarrow> acc\<lparr>errors := errors acc @ [(file_name f, e)]\<rparr>
                  | None \<Rightarrow> acc\<lparr>successes := successes acc @ [data (fst r)]\<rparr>,
                  snd r)"
    from True have dr: "drop i files = files ! i # drop (Suc i) files"
      by (simp add: Cons_nth_drop_Suc)
    show ?thesis
    proof (cases "error (fst ?r)")
      case None
      let ?acc = "acc\<lparr>successes := successes acc @ [data (fst ?r)]\<rparr>"
      have "upload_loop fetch files productId sku i acc net =
          upload_loop fetch files productId sku (Suc i) ?acc (snd ?r)"
        by (rule upload_loop_success [OF True None])
      also have "\<dots> = foldl ?step (?acc, snd ?r) (enumerate (Suc i) (drop (Suc i) files))"
        by (rule "1.IH"(1) [OF True refl refl refl None])
      also have "\<dots> = foldl ?step (acc, net) (enumerate i (drop i files))"
        using None by (simp add: dr Let_def)
      finally show ?thesis .
    next
      case (Some e)
      let ?acc = "acc\<lparr>errors := errors acc @ [(file_name (files ! i), e)]\<rparr>"
      have "upload_loop fetch files productId sku i acc net =
          upload_loop fetch files productId sku (Suc i) ?acc (snd ?r)"
        by (rule upload_loop_error [OF True Some])
      also have "\<dots> = foldl ?step (?acc, snd ?r) (enumerate (Suc i) (drop (Suc i) files))"
        by (rule "1.IH"(2) [OF True refl refl refl Some])
      also have "\<dots> = foldl ?step (acc, net) (enumerate i (drop i files))"
        using Some by (simp add: dr Let_def)
      finally show ?thesis .
    qed
  qed
qed

text \<open>
  Claim C1, as the code has it. For every file, \<^verbatim>\<open>uploadProductPhotoSecure\<close> returns
  the error ``Solo immagini sono permesse'' (InvalidFormat) when the MIME type does not
  start with \<^verbatim>\<open>image/\<close>, and the error ``File troppo grande (max 10MB)'' (TooLarge)
  when the type passes and the size exceeds 10 MiB; in both cases the network is left as
  it was, with no request sent. A request is sent only when both local checks pass, and
  then exactly one is sent. The local type check is the prefix test: the list
  \<open>allowedTypes\<close> of \<^verbatim>\<open>uploadConfig\<close> is not consulted.
\<close>

theorem uploadProductPhotoSecure_local_checks:
  "(\<not> prefix ''image/'' (file_type f) \<longrightarrow>
      uploadProductPhotoSecure fetch (Some f) productId sku isFirst net =
        (\<lparr>data = None,
          error = Some \<lparr>message = ''Solo immagini sono permesse'', details = None\<rparr>\<rparr>, net))
   \<and> (prefix ''image/'' (file_type f) \<and> file_size f > maxFileSize \<longrightarrow>
      uploadProductPhotoSecure fetch (Some f) productId sku isFirst net =
        (\<lparr>data = None,
          error = Some \<lparr>message = ''File troppo grande (max 10MB)'', details = None\<rparr>\<rparr>, net))
   \<and> (sent (snd (uploadProductPhotoSecure fetch (Some f) productId sku isFirst net)) \<noteq> sent net \<longrightarrow>
      prefix ''image/'' (file_type f) \<and> file_size f \<le> maxFileSize)
   \<and> (prefix ''image/'' (file_type f) \<and> file_size f \<le> maxFileSize \<longrightarrow>
      sent (snd (uploadProductPhotoSecure fetch (Some f) productId sku isFirst net)) =
        sent net @ [\<lparr>form_file = f, form_productId = or_default productId [], form_sku = sku,
                      form_isFirst = (if isFirst then ''true'' else ''false'')\<rparr>])"
proof -
  have invalid: "uploadProductPhotoSecure fetch (Some f) productId sku isFirst net =
        (\<lparr>data = None,
          error = Some \<lparr>message = ''Solo immagini sono permesse'', details = None\<rparr>\<rparr>, net)"
    if "\<not> prefix ''image/'' (file_type f)"
    using that by (simp add: uploadProductPhotoSecure_def)
  have large: "uploadProductPhotoSecure fetch (Some f) productId sku isFirst net =
        (\<lparr>data = None,
          error = Some \<lparr>message = ''File troppo grande (max 10MB)'', details = None\<rparr>\<rparr>, net)"
    if "prefix ''image/'' (file_type f)" "file_size f > maxFileSize"
    using that by (simp add: uploadProductPhotoSecure_def maxFileSize_def)
  show ?thesis
    using invalid large upload_sent [of fetch f productId sku isFirst net]
    by (auto simp: not_le)
qed

text \<open>
  The theorem at three files: a text file, a 12 MiB JPEG and a 2 KiB PNG sent as the
  first photo.
\<close>

theorem uploadProductPhotoSecure_local_checks_witness:
  "uploadProductPhotoSecure (\<lambda>w r. (Responded True None None (Some ()), w))
       (Some \<lparr>file_name = ''notes.txt'', file_type = ''text/plain'', file_size = 12\<rparr>)
       None ''SKU1'' False \<lparr>server = (), sent = []\<rparr> =
     (\<lparr>data = None,
       error = Some \<lparr>message = ''Solo immagini sono permesse'', details = None\<rparr>\<rparr>,
      \<lparr>server = (), sent = []\<rparr>)
   \<and> uploadProductPhotoSecure (\<lambda>w r. (Responded True None None (Some ()), w))
       (Some \<lparr>file_name = ''big.jpg'', file_type = ''image/jpeg'', file_size = 12582912\<rparr>)
       None ''SKU1'' False \<lparr>server = (), sent = []\<rparr> =
     (\<lparr>data = None,
       error = Some \<lparr>message = ''File troppo grande (max 10MB)'', details = None\<rparr>\<rparr>,
      \<lparr>server = (), sent = []\<rparr>)
   \<and> sent (snd (uploadProductPhotoSecure (\<lambda>w r. (Responded True None None (Some ()), w))
       (Some \<lparr>file_name = ''ok.png'', file_type = ''image/png'', file_size = 2048\<rparr>)
       None ''SKU1'' True \<lparr>server = (), sent = []\<rparr>)) =
     [\<lparr>form_file = \<lparr>file_name = ''ok.png'', file_type = ''image/png'', file_size = 2048\<rparr>,
       form_productId = [], form_sku = ''SKU1'', form_isFirst = ''true''\<rparr>]"
  using
    uploadProductPhotoSecure_local_checks [of
      "\<lparr>file_name = ''notes.txt'', file_type = ''text/plain'', file_size = 12\<rparr>"
      "\<lambda>w r. (Responded True None None (Some ()), w)" None "''SKU1''" False
      "\<lparr>server = (), sent = []\<rparr>"]
    uploadProductPhotoSecure_local_checks [of
      "\<lparr>file_name = ''big.jpg'', file_type = ''image/jpeg'', file_size = 12582912\<rparr>"
      "\<lambda>w r. (Responded True None None (Some ()), w)" None "''SKU1''" False
      "\<lparr>server = (), sent = []\<rparr>"]
    uploadProductPhotoSecure_local_checks [of
      "\<lparr>file_name = ''ok.png'', file_type = ''image/png'', file_size = 2048\<rparr>"
      "\<lambda>w r. (Responded True None None (Some ()), w)" None "''SKU1''" True
      "\<lparr>server = (), sent = []\<rparr>"]
  by (simp add: maxFileSize_def or_default_def)

text \<open>
  Claim C1 as stated, with the accepted image types read as \<open>allowedTypes\<close>, fails for
  a GIF of 2 KiB: \<^verbatim>\<open>image/gif\<close> is not in the list, yet the file passes the local
  checks, the request is sent and the upload succeeds.
\<close>

theorem accepted_type_counterexample:
  "''image/gif'' \<notin> set allowedTypes
   \<and> uploadProductPhotoSecure (\<lambda>w r. (Responded True None None (Some ()), w))
       (Some \<lparr>file_name = ''anim.gif'', file_type = ''image/gif'', file_size = 2048\<rparr>)
       None ''SKU1'' False \<lparr>server = (), sent = []\<rparr> =
     (\<lparr>data = Some (), error = None\<rparr>,
      \<lparr>server = (),
        sent = [\<lparr>form_file = \<lparr>file_name = ''anim.gif'', file_type = ''image/gif'', file_size = 2048\<rparr>,
                 form_productId = [], form_sku = ''SKU1'', form_isFirst = ''false''\<rparr>]\<rparr>)"
  by (simp add: allowedTypes_def uploadProductPhotoSecure_def or_default_def)

text \<open>
  Claim C10. For every list of files, \<^verbatim>\<open>uploadMultiplePhotos\<close> puts each file's
  outcome in exactly one of the two lists, so the lengths of \<open>successes\<close> and \<open>errors\<close>
  add up to the number of files; it is the left-to-right fold over the indexed files
  that calls \<^verbatim>\<open>uploadProductPhotoSecure\<close> with \<open>isFirst\<close> true exactly at index 0 and
  passes the network on from one call to the next; and the requests it sends are, in
  order, those of the files that pass the local checks, with the field \<open>isFirst\<close> equal
  to \<^verbatim>\<open>true\<close> only for index 0.
\<close>

theorem uploadMultiplePhotos_each_file_once:
  "length (successes (fst (uploadMultiplePhotos fetch files productId sku net))) +
     length (errors (fst (uploadMultiplePhotos fetch files productId sku net))) = length files
   \<and> uploadMultiplePhotos fetch files productId sku net =
       foldl (\<lambda>(acc, net) (i, f).
                let r = uploadProductPhotoSecure fetch (Some f) productId sku (i = 0) net
                in (case error (fst r) of
                      Some e \<Rightarrow> acc\<lparr>errors := errors acc @ [(file_name f, e)]\<rparr>
                    | None \<Rightarrow> acc\<lparr>successes := successes acc @ [data (fst r)]\<rparr>,
                    snd r))
         (\<lparr>successes = [], errors = []\<rparr>, net) (enumerate 0 files)
   \<and> sent (snd (uploadMultiplePhotos fetch files productId sku net)) =
       sent net @
         map (\<lambda>(i, f). \<lparr>form_file = f, form_productId = or_default productId [], form_sku = sku,
                 form_isFirst = (if i = 0 then ''true'' else ''false'')\<rparr>)
           (filter (\<lambda>(i, f). prefix ''image/'' (file_type f) \<and> file_size f \<le> maxFileSize)
              (enumerate 0 files))"
  unfolding uploadMultiplePhotos_def
  using upload_loop_count [of 0 files fetch productId sku "\<lparr>successes = [], errors = []\<rparr>" net]
    upload_loop_foldl [of fetch files productId sku 0 "\<lparr>successes = [], errors = []\<rparr>" net]
    upload_loop_sent [of fetch files productId sku 0 "\<lparr>successes = [], errors = []\<rparr>" net]
  by simp

section \<open>Properties of the image cropper\<close>

text \<open>
  Claim C6. When an image of \<open>w\<close> by \<open>h\<close> pixels is loaded, the crop region becomes the
  rectangle inset by 10 percent on each side: it starts at \<open>(0.1 w, 0.1 h)\<close>, is
  \<open>0.8 w\<close> wide and \<open>0.8 h\<close> high, and so leaves \<open>0.1 w\<close> on the right and \<open>0.1 h\<close>
  below.
\<close>

theorem onload_initial_crop:
  "cropArea (onload w h st) =
     \<lparr>crop_x = 0.1 * w, crop_y = 0.1 * h, crop_width = 0.8 * w, crop_height = 0.8 * h\<rparr>
   \<and> imageSize (onload w h st) = \<lparr>dim_width = w, dim_height = h\<rparr>
   \<and> w - (crop_x (cropArea (onload w h st)) + crop_width (cropArea (onload w h st))) = 0.1 * w
   \<and> h - (crop_y (cropArea (onload w h st)) + crop_height (cropArea (onload w h st))) = 0.1 * h"
  by (simp add: onload_def Let_def algebra_simps)

text \<open>Pointer moves change neither the anchor nor the dragging flag.\<close>

lemma drag_invariant:
  "isDragging (foldl (\<lambda>s e. handleMouseMove canvas e s) st moves) = isDragging st
   \<and> dragStart (foldl (\<lambda>s e. handleMouseMove canvas e s) st moves) = dragStart st"
  by (induction moves arbitrary: st) (simp_all add: handleMouseMove_def Let_def)

text \<open>
  Claim C7. A drag gesture is a pointer-down followed by one or more pointer-moves, on a
  canvas whose bounding rectangle has a positive width and height (on a rectangle of
  size zero the divisions of the handlers are by zero). After the last move, whatever
  the direction of the drag, the crop region has the minimum of the anchor's and the
  pointer's coordinates as \<open>x\<close> and \<open>y\<close>, and the absolute differences as width and
  height, which are therefore not negative.
\<close>

theorem drag_region_normalised:
  assumes "0 < rect_width canvas" and "0 < rect_height canvas" and "moves \<noteq> []"
  shows "cropArea (foldl (\<lambda>s e. handleMouseMove canvas e s) (handleMouseDown canvas down st) moves) =
      \<lparr>crop_x = min (pointer_x canvas (last moves)) (pointer_x canvas down),
       crop_y = min (pointer_y canvas (last moves)) (pointer_y canvas down),
       crop_width = \<bar>pointer_x canvas (last moves) - pointer_x canvas down\<bar>,
       crop_height = \<bar>pointer_y canvas (last moves) - pointer_y canvas down\<bar>\<rparr>
    \<and> 0 \<le> crop_width (cropArea
          (foldl (\<lambda>s e. handleMouseMove canvas e s) (handleMouseDown canvas down st) moves))
    \<and> 0 \<le> crop_height (cropArea
          (foldl (\<lambda>s e. handleMouseMove canvas e s) (handleMouseDown canvas down st) moves))"
proof -
  from assms(3) obtain ms m where moves: "moves = ms @ [m]"
    by (cases moves rule: rev_cases) auto
  let ?before = "foldl (\<lambda>s e. handleMouseMove canvas e s) (handleMouseDown canvas down st) ms"
  have "isDragging ?before" and "dragStart ?before =
      \<lparr>point_x = pointer_x canvas down, point_y = pointer_y canvas down\<rparr>"
    using drag_invariant [of canvas "handleMouseDown canvas down st" ms]
    by (simp_all add: handleMouseDown_def Let_def)
  then show ?thesis
    by (simp add: moves handleMouseMove_def Let_def)
qed

text \<open>
  The theorem on a canvas of 1280 by 720 pixels shown at half size: the pointer goes
  down at canvas point (600, 400) and is dragged up and to the left, to (200, 100).
\<close>

theorem drag_region_normalised_witness:
  "cropArea (foldl (\<lambda>s e. handleMouseMove
        \<lparr>canvas_width = 1280, canvas_height = 720, rect_left = 20, rect_top = 10,
          rect_width = 640, rect_height = 360\<rparr> e s)
      (handleMouseDown
        \<lparr>canvas_width = 1280, canvas_height = 720, rect_left = 20, rect_top = 10,
          rect_width = 640, rect_height = 360\<rparr>
        \<lparr>clientX = 320, clientY = 210\<rparr> cropper_init)
      [\<lparr>clientX = 300, clientY = 250\<rparr>, \<lparr>clientX = 120, clientY = 60\<rparr>]) =
    \<lparr>crop_x = 200, crop_y = 100, crop_width = 400, crop_height = 300\<rparr>"
  using drag_region_normalised [of
      "\<lparr>canvas_width = 1280, canvas_height = 720, rect_left = 20, rect_top = 10,
        rect_width = 640, rect_height = 360\<rparr>"
      "[\<lparr>clientX = 300, clientY = 250\<rparr>, \<lparr>clientX = 120, clientY = 60\<rparr>]"
      "\<lparr>clientX = 320, clientY = 210\<rparr>" cropper_init]
  by (simp add: pointer_x_def pointer_y_def)

text \<open>
  Claim C4. When the crop region has width zero or height zero, \<^verbatim>\<open>handleConfirm\<close>
  shows the error toast ``Seleziona un'area da ritagliare'' (NoRegionSelected) and
  returns with the state unchanged: nothing is rendered and \<^verbatim>\<open>onConfirm\<close> is not
  called, so no edited image is produced.
\<close>

theorem handleConfirm_no_region:
  assumes "crop_width (cropArea st) = 0 \<or> crop_height (cropArea st) = 0"
  shows "handleConfirm toBlob st = (st, [ToastError ''Seleziona un'area da ritagliare''])
    \<and> (\<forall>r. DrawImage r \<notin> set (snd (handleConfirm toBlob st)))
    \<and> (\<forall>blob. OnConfirm blob \<notin> set (snd (handleConfirm toBlob st)))"
  using assms by (auto simp: handleConfirm_def)

text \<open>The theorem at a loaded image with a region of width zero, and one of height zero.\<close>

theorem handleConfirm_no_region_witness:
  "handleConfirm (\<lambda>r. Some ())
      (cropper_init\<lparr>imageLoaded := True,
         cropArea := \<lparr>crop_x = 40, crop_y = 30, crop_width = 0, crop_height = 200\<rparr>\<rparr>) =
     (cropper_init\<lparr>imageLoaded := True,
         cropArea := \<lparr>crop_x = 40, crop_y = 30, crop_width = 0, crop_height = 200\<rparr>\<rparr>,
      [ToastError ''Seleziona un'area da ritagliare''])
   \<and> handleConfirm (\<lambda>r. Some ())
      (cropper_init\<lparr>imageLoaded := True,
         cropArea := \<lparr>crop_x = 40, crop_y = 30, crop_width = 200, crop_height = 0\<rparr>\<rparr>) =
     (cropper_init\<lparr>imageLoaded := True,
         cropArea := \<lparr>crop_x = 40, crop_y = 30, crop_width = 200, crop_height = 0\<rparr>\<rparr>,
      [ToastError ''Seleziona un'area da ritagliare''])"
  using
    handleConfirm_no_region [of
      "cropper_init\<lparr>imageLoaded := True,
         cropArea := \<lparr>crop_x = 40, crop_y = 30, crop_width = 0, crop_height = 200\<rparr>\<rparr>"
      "\<lambda>r. Some ()"]
    handleConfirm_no_region [of
      "cropper_init\<lparr>imageLoaded := True,
         cropArea := \<lparr>crop_x = 40, crop_y = 30, crop_width = 200, crop_height = 0\<rparr>\<rparr>"
      "\<lambda>r. Some ()"]
  by simp

text \<open>
  With exact arithmetic the rounded size computation is that of \<^verbatim>\<open>updatePreview\<close> and
  \<^verbatim>\<open>handleConfirm\<close> above.
\<close>

lemma updatePreview_fit_aspect:
  "updatePreview st = Some r \<Longrightarrow>
   (finalWidth r, finalHeight r) =
     fit_aspect (\<lambda>x. x) (crop_width (cropArea st)) (crop_height (cropArea st))
       (dim_width (outputSize st)) (dim_height (outputSize st))"
  by (auto simp: updatePreview_def fit_aspect_def Let_def split: if_splits)

lemma handleConfirm_fit_aspect:
  "hd (snd (handleConfirm toBlob st)) = DrawImage r \<Longrightarrow>
   (finalWidth r, finalHeight r) =
     fit_aspect (\<lambda>x. x) (crop_width (cropArea st)) (crop_height (cropArea st))
       (dim_width (outputSize st) * scale st) (dim_height (outputSize st) * scale st)"
  by (auto simp: handleConfirm_def fit_aspect_def Let_def split: if_splits)

text \<open>
  The error of the rounded size computation. A rounding \<open>fl\<close> of relative error at most
  \<open>u\<close>, with \<open>u\<close> at most 1/8, is off by at most \<open>4 u w\<close> in the width it computes
  and by at most \<open>4 u h\<close> in the height it computes, where \<open>w\<close> and \<open>h\<close> are the
  requested sides and \<open>a\<close> is the exact ratio of the crop.
\<close>

lemma rounded_bounds:
  fixes fl :: "real \<Rightarrow> real"
  assumes "\<bar>fl x - x\<bar> \<le> u * \<bar>x\<bar>" and "0 < x"
  shows "x * (1 - u) \<le> fl x" and "fl x \<le> x * (1 + u)"
  using assms by (simp_all add: algebra_simps abs_le_iff)

lemma scaled_bounds:
  fixes u x :: real
  assumes "0 \<le> u" and "u \<le> 1 / 8" and "0 < x"
  shows "x * (1 + u) \<le> (9 / 8) * x" and "(7 / 8) * x \<le> x * (1 - u)"
proof -
  from assms have "x * u \<le> x * (1 / 8)" by (intro mult_left_mono) simp_all
  then show "x * (1 + u) \<le> (9 / 8) * x" and "(7 / 8) * x \<le> x * (1 - u)"
    by (simp_all add: algebra_simps)
qed


lemma fit_aspect_width_error:
  fixes fl :: "real \<Rightarrow> real"
  assumes fl: "\<And>x. \<bar>fl x - x\<bar> \<le> u * \<bar>x\<bar>" and u: "0 \<le> u" "u \<le> 1 / 8"
    and pos: "0 < a" "0 < w" "0 < h"
    and branch: "fl (w / h) > fl a"
  shows "\<bar>fl (h * fl a) - h * a\<bar> \<le> 4 * u * w \<and> 0 < fl (h * fl a)"
proof -
  have a1: "a * (1 - u) \<le> fl a"
    using rounded_bounds(1) [where fl = fl and x = a and u = u] fl [of a] pos(1) by simp
  have a78: "(7 / 8) * a \<le> fl a"
    using scaled_bounds(2) [OF u pos(1)] a1 by linarith
  with pos(1) have apos: "0 < fl a" by linarith
  have wh: "0 < w / h" using pos by simp
  have "fl (w / h) \<le> (w / h) * (1 + u)"
    using rounded_bounds(2) [where fl = fl and x = "w / h" and u = u] fl [of "w / h"] wh by simp
  also have "\<dots> \<le> (9 / 8) * (w / h)" by (rule scaled_bounds(1) [OF u wh])
  finally have "fl a < (9 / 8) * (w / h)" using branch by linarith
  then have "h * fl a < h * ((9 / 8) * (w / h))"
    using pos(3) by (simp only: mult_less_cancel_left_pos)
  then have x4: "h * fl a < (9 / 8) * w" using pos(3) by simp
  from apos pos(3) have xpos: "0 < h * fl a" by simp
  have f: "\<bar>fl (h * fl a) - h * fl a\<bar> \<le> u * (h * fl a)"
    using fl [of "h * fl a"] xpos by simp
  have "\<bar>fl a - a\<bar> \<le> u * a" using fl [of a] pos(1) by simp
  then have "h * \<bar>fl a - a\<bar> \<le> h * (u * a)"
    using pos(3) by (simp only: mult_le_cancel_left_pos)
  moreover have "\<bar>h * fl a - h * a\<bar> = h * \<bar>fl a - a\<bar>"
    using pos(3) by (simp add: abs_mult flip: right_diff_distrib)
  ultimately have d: "\<bar>h * fl a - h * a\<bar> \<le> u * (h * a)"
    by (simp add: mult.left_commute)
  from a78 have "h * ((7 / 8) * a) \<le> h * fl a"
    using pos(3) by (simp only: mult_le_cancel_left_pos)
  with x4 have A: "h * a \<le> (9 / 7) * w" by simp
  have "u * (h * fl a) \<le> u * ((9 / 8) * w)"
    using x4 u(1) by (intro mult_left_mono) simp_all
  moreover have "u * (h * a) \<le> u * ((9 / 7) * w)"
    using A u(1) by (intro mult_left_mono) simp_all
  moreover have "0 \<le> u * w" using u(1) pos(2) by simp
  ultimately have "\<bar>fl (h * fl a) - h * a\<bar> \<le> 4 * u * w"
    using f d by linarith
  moreover have "0 < fl (h * fl a)"
  proof -
    have "u * (h * fl a) \<le> (1 / 8) * (h * fl a)"
      using u(2) xpos by (intro mult_right_mono) simp_all
    with f xpos show ?thesis by linarith
  qed
  ultimately show ?thesis by simp
qed


lemma fit_aspect_height_error:
  fixes fl :: "real \<Rightarrow> real"
  assumes fl: "\<And>x. \<bar>fl x - x\<bar> \<le> u * \<bar>x\<bar>" and u: "0 \<le> u" "u \<le> 1 / 8"
    and pos: "0 < a" "0 < w" "0 < h"
    and branch: "\<not> fl (w / h) > fl a"
  shows "\<bar>fl (w / fl a) - w / a\<bar> \<le> 4 * u * h \<and> 0 < fl (w / fl a)"
proof -
  have a1: "a * (1 - u) \<le> fl a"
    using rounded_bounds(1) [where fl = fl and x = a and u = u] fl [of a] pos(1) by simp
  have a78: "(7 / 8) * a \<le> fl a"
    using scaled_bounds(2) [OF u pos(1)] a1 by linarith
  with pos(1) have apos: "0 < fl a" by linarith
  have wh: "0 < w / h" using pos by simp
  have "(7 / 8) * (w / h) \<le> (w / h) * (1 - u)" by (rule scaled_bounds(2) [OF u wh])
  also have "\<dots> \<le> fl (w / h)"
    using rounded_bounds(1) [where fl = fl and x = "w / h" and u = u] fl [of "w / h"] wh by simp
  finally have "(7 / 8) * (w / h) \<le> fl a" using branch by linarith
  then have "(7 / 8) * w \<le> fl a * h"
    using pos(3) by (simp add: pos_divide_le_eq)
  then have "w \<le> ((8 / 7) * h) * fl a" by (simp add: algebra_simps)
  then have y4: "w / fl a \<le> (8 / 7) * h"
    using apos by (simp add: pos_divide_le_eq)
  have ypos: "0 < w / fl a" using pos(2) apos by simp
  have f: "\<bar>fl (w / fl a) - w / fl a\<bar> \<le> u * (w / fl a)"
    using fl [of "w / fl a"] by (simp only: abs_of_pos [OF ypos])
  have "w / fl a - w / a = (w / fl a) * ((a - fl a) / a)"
    using pos(1) apos by (simp add: field_simps)
  then have "\<bar>w / fl a - w / a\<bar> = \<bar>w / fl a\<bar> * (\<bar>a - fl a\<bar> / \<bar>a\<bar>)"
    by (simp only: abs_mult abs_divide)
  then have "\<bar>w / fl a - w / a\<bar> = (w / fl a) * (\<bar>a - fl a\<bar> / a)"
    by (simp only: abs_of_pos [OF ypos] abs_of_pos [OF pos(1)])
  moreover have "(w / fl a) * (\<bar>a - fl a\<bar> / a) \<le> (w / fl a) * u"
  proof -
    have "\<bar>a - fl a\<bar> \<le> u * a" using fl [of a] pos(1) by (simp add: abs_minus_commute)
    then have "\<bar>a - fl a\<bar> / a \<le> u" using pos(1) by (simp add: pos_divide_le_eq)
    then show ?thesis using ypos by (intro mult_left_mono) simp_all
  qed
  ultimately have d: "\<bar>w / fl a - w / a\<bar> \<le> u * (w / fl a)"
    by (simp only: mult.commute [of u])
  have "u * (w / fl a) \<le> u * ((8 / 7) * h)"
    using y4 u(1) by (intro mult_left_mono) simp_all
  moreover have "0 \<le> u * h" using u(1) pos(3) by simp
  ultimately have "\<bar>fl (w / fl a) - w / a\<bar> \<le> 4 * u * h"
    using f d by linarith
  moreover have "0 < fl (w / fl a)"
  proof -
    have "u * (w / fl a) \<le> (1 / 8) * (w / fl a)"
      using u(2) ypos by (intro mult_right_mono) simp_all
    with f ypos show ?thesis by linarith
  qed
  ultimately show ?thesis by simp
qed

text \<open>
  For rounding to double precision (relative error at most \<open>2^-53\<close>): the side that is
  kept, and the distance of the other side's pixel count from its exact value.
\<close>

lemma fit_aspect_canvas:
  fixes fl :: "real \<Rightarrow> real"
  assumes fl: "\<And>x. \<bar>fl x - x\<bar> \<le> \<bar>x\<bar> / 2 ^ 53"
    and pos: "0 < cw" "0 < ch" "0 < w" "0 < h"
  shows "if fl (w / h) > fl (cw / ch)
     then snd (fit_aspect fl cw ch w h) = h
        \<and> \<bar>real_of_int (canvas_pixels (fst (fit_aspect fl cw ch w h))) - h * (cw / ch)\<bar>
            < 1 + w / 2 ^ 51
     else fst (fit_aspect fl cw ch w h) = w
        \<and> \<bar>real_of_int (canvas_pixels (snd (fit_aspect fl cw ch w h))) - w / (cw / ch)\<bar>
            < 1 + h / 2 ^ 51"
proof -
  have fl': "\<bar>fl x - x\<bar> \<le> (1 / 2 ^ 53) * \<bar>x\<bar>" for x
    using fl [of x] by simp
  have u: "(0::real) \<le> 1 / 2 ^ 53" "(1::real) / 2 ^ 53 \<le> 1 / 8"
    by simp_all
  have a: "0 < cw / ch" using pos by simp
  have near: "\<bar>real_of_int \<lfloor>v\<rfloor> - x\<bar> < 1 + e" if "\<bar>v - x\<bar> \<le> e" for v x e :: real
    using that by linarith
  show ?thesis
  proof (cases "fl (w / h) > fl (cw / ch)")
    case True
    from fit_aspect_width_error [where fl = fl, OF fl' u a pos(3,4) True]
    have "\<bar>fl (h * fl (cw / ch)) - h * (cw / ch)\<bar> \<le> w / 2 ^ 51"
      by simp
    from near [OF this] True show ?thesis
      by (simp add: fit_aspect_def Let_def canvas_pixels_def)
  next
    case False
    from fit_aspect_height_error [where fl = fl, OF fl' u a pos(3,4) False]
    have "\<bar>fl (w / fl (cw / ch)) - w / (cw / ch)\<bar> \<le> h / 2 ^ 51"
      by simp
    from near [OF this] False show ?thesis
      by (simp add: fit_aspect_def Let_def canvas_pixels_def)
  qed
qed

text \<open>
  Claim C3, as the code has it. Let \<open>fl\<close> round with a relative error of at most
  \<open>2^-53\<close>, as rounding to the nearest double does on numbers that neither overflow nor
  underflow. For a loaded image, a crop region of positive width and height and an
  output size and scale that are positive, the preview and the confirm render both set a
  canvas size. One requested side is kept and the other is computed from it and the
  crop's ratio: when the rounded requested ratio exceeds the rounded crop ratio the
  height is kept and the width in pixels is within one pixel of the kept height times
  the crop's exact ratio; otherwise the width is kept and the height in pixels is within
  one pixel of the kept width divided by the crop's exact ratio. On top of the pixel the
  bound allows for the rounding of the two operations, \<open>2^-51\<close> times the other
  requested side. The side that is computed is the one too long for the crop's ratio,
  which need not be the larger of the two. The preview starts from the output size, the
  confirm render from the rounded products of the output size and the scale. A side whose
  exact value is below one pixel gets zero pixels.
\<close>

theorem render_aspect_ratio_within_one_pixel:
  fixes fl :: "real \<Rightarrow> real"
  assumes fl: "\<And>x. \<bar>fl x - x\<bar> \<le> \<bar>x\<bar> / 2 ^ 53"
    and loaded: "imageLoaded st"
    and crop: "0 < crop_width (cropArea st)" "0 < crop_height (cropArea st)"
    and out: "0 < dim_width (outputSize st)" "0 < dim_height (outputSize st)" "0 < scale st"
  shows "\<exists>pw ph fw fh.
      preview_canvas fl st = Some (pw, ph) \<and> confirm_canvas fl st = Some (fw, fh)
      \<and> (if fl (dim_width (outputSize st) / dim_height (outputSize st))
              > fl (crop_width (cropArea st) / crop_height (cropArea st))
          then ph = canvas_pixels (dim_height (outputSize st))
             \<and> \<bar>real_of_int pw
                  - dim_height (outputSize st)
                    * (crop_width (cropArea st) / crop_height (cropArea st))\<bar>
                 < 1 + dim_width (outputSize st) / 2 ^ 51
          else pw = canvas_pixels (dim_width (outputSize st))
             \<and> \<bar>real_of_int ph
                  - dim_width (outputSize st)
                    / (crop_width (cropArea st) / crop_height (cropArea st))\<bar>
                 < 1 + dim_height (outputSize st) / 2 ^ 51)
      \<and> (if fl (fl (dim_width (outputSize st) * scale st)
                 / fl (dim_height (outputSize st) * scale st))
              > fl (crop_width (cropArea st) / crop_height (cropArea st))
          then fh = canvas_pixels (fl (dim_height (outputSize st) * scale st))
             \<and> \<bar>real_of_int fw
                  - fl (dim_height (outputSize st) * scale st)
                    * (crop_width (cropArea st) / crop_height (cropArea st))\<bar>
                 < 1 + fl (dim_width (outputSize st) * scale st) / 2 ^ 51
          else fw = canvas_pixels (fl (dim_width (outputSize st) * scale st))
             \<and> \<bar>real_of_int fh
                  - fl (dim_width (outputSize st) * scale st)
                    / (crop_width (cropArea st) / crop_height (cropArea st))\<bar>
                 < 1 + fl (dim_height (outputSize st) * scale st) / 2 ^ 51)"
proof -
  let ?cw = "crop_width (cropArea st)" and ?ch = "crop_height (cropArea st)"
  let ?ow = "dim_width (outputSize st)" and ?oh = "dim_height (outputSize st)"
  have rounded_pos: "0 < fl x" if "0 < x" for x
  proof -
    have "x * (1 - 1 / 2 ^ 53) \<le> fl x"
      using rounded_bounds(1) [where fl = fl and x = x and u = "1 / 2 ^ 53"] fl [of x] that
      by simp
    moreover have "0 < x * (1 - 1 / 2 ^ 53)" using that by simp
    ultimately show ?thesis by linarith
  qed
  have ws: "0 < fl (?ow * scale st)" and hs: "0 < fl (?oh * scale st)"
    using out by (simp_all add: rounded_pos)
  note p = fit_aspect_canvas [where fl = fl, OF fl crop out(1,2)]
  note c = fit_aspect_canvas [where fl = fl, OF fl crop ws hs]
  have guard: "\<not> (\<not> imageLoaded st \<or> ?cw = 0 \<or> ?ch = 0)"
    using loaded crop by simp
  have pv: "preview_canvas fl st =
      Some (canvas_pixels (fst (fit_aspect fl ?cw ?ch ?ow ?oh)),
            canvas_pixels (snd (fit_aspect fl ?cw ?ch ?ow ?oh)))"
    using guard by (simp add: preview_canvas_def split: prod.split)
  have cf: "confirm_canvas fl st =
      Some (canvas_pixels (fst (fit_aspect fl ?cw ?ch (fl (?ow * scale st)) (fl (?oh * scale st)))),
            canvas_pixels (snd (fit_aspect fl ?cw ?ch (fl (?ow * scale st)) (fl (?oh * scale st)))))"
    using guard by (simp add: confirm_canvas_def split: prod.split)
  show ?thesis
    unfolding pv cf
    apply (intro exI conjI)
       apply (rule refl)
      apply (rule refl)
    subgoal using p by (simp split: if_splits)
    subgoal using c by (simp split: if_splits)
    done
qed

text \<open>
  The rounding \<open>fl_ranges\<close> has a relative error of at most \<open>2^-53\<close>, and its values on
  the numbers of the example.
\<close>

lemma nearest_error: "\<bar>nearest k x - x\<bar> \<le> 1 / 2 ^ (k + 1)"
proof -
  have "\<bar>real_of_int \<lfloor>x * 2 ^ k + 1 / 2\<rfloor> - x * 2 ^ k\<bar> \<le> 1 / 2"
    by linarith
  then have "\<bar>real_of_int \<lfloor>x * 2 ^ k + 1 / 2\<rfloor> - x * 2 ^ k\<bar> / 2 ^ k \<le> (1 / 2) / 2 ^ k"
    by (intro divide_right_mono) simp_all
  moreover have "nearest k x - x = (real_of_int \<lfloor>x * 2 ^ k + 1 / 2\<rfloor> - x * 2 ^ k) / 2 ^ k"
    by (simp add: nearest_def field_simps)
  ultimately show ?thesis
    by (simp add: abs_divide)
qed

lemma fl_ranges_error: "\<bar>fl_ranges x - x\<bar> \<le> \<bar>x\<bar> / 2 ^ 53"
  using nearest_error [of 53 x] nearest_error [of 52 x] nearest_error [of 44 x]
  by (auto simp: fl_ranges_def)

lemma fl_ranges_ratio: "fl_ranges (330 / 450) = 6605279453476727 / 2 ^ 53"
proof -
  have "\<lfloor>(330::real) / 450 * 2 ^ 53 + 1 / 2\<rfloor> = 6605279453476727"
    by (rule floor_unique) simp_all
  then show ?thesis by (simp add: fl_ranges_def nearest_def)
qed

lemma fl_ranges_requested: "fl_ranges (800 / 600) = 6004799503160661 / 2 ^ 52"
proof -
  have "\<lfloor>(800::real) / 600 * 2 ^ 52 + 1 / 2\<rfloor> = 6004799503160661"
    by (rule floor_unique) simp_all
  then show ?thesis by (simp add: fl_ranges_def nearest_def)
qed

lemma fl_ranges_width: "fl_ranges (600 * (6605279453476727 / 2 ^ 53)) = 7740561859543039 / 2 ^ 44"
proof -
  have "\<lfloor>(600::real) * (6605279453476727 / 2 ^ 53) * 2 ^ 44 + 1 / 2\<rfloor> = 7740561859543039"
    by (rule floor_unique) simp_all
  then show ?thesis by (simp add: fl_ranges_def nearest_def)
qed

lemma fl_ranges_exact: "fl_ranges 800 = 800" "fl_ranges 600 = 600"
  by (simp_all add: fl_ranges_def)

lemma example_width: "\<lfloor>(7740561859543039::real) / 2 ^ 44\<rfloor> = 439"
  by (rule floor_unique) simp_all


lemma example_fit:
  "fit_aspect fl_ranges 330 450 800 600 = (7740561859543039 / 2 ^ 44, 600)"
  by (simp only: fit_aspect_def Let_def fl_ranges_ratio fl_ranges_requested fl_ranges_width)
    simp

text \<open>
  The theorem for a crop of 330 by 450 pixels at the output size 800 by 600 and scale 1,
  with \<open>fl_ranges\<close>: the rounded ratio is just below 11/15, the width computed is the
  double just below 440, and both canvases are 439 by 600 pixels, where the exact width
  is 440.
\<close>

theorem render_aspect_ratio_within_one_pixel_witness:
  "preview_canvas fl_ranges
      (cropper_init\<lparr>imageLoaded := True,
         cropArea := \<lparr>crop_x = 100, crop_y = 50, crop_width = 330, crop_height = 450\<rparr>\<rparr>) =
     Some (439, 600)
   \<and> confirm_canvas fl_ranges
      (cropper_init\<lparr>imageLoaded := True,
         cropArea := \<lparr>crop_x = 100, crop_y = 50, crop_width = 330, crop_height = 450\<rparr>\<rparr>) =
     Some (439, 600)
   \<and> \<bar>real_of_int 439 - 600 * (330 / 450)\<bar> < 1 + 800 / 2 ^ 51"
proof -
  let ?st = "cropper_init\<lparr>imageLoaded := True,
         cropArea := \<lparr>crop_x = 100, crop_y = 50, crop_width = 330, crop_height = 450\<rparr>\<rparr>"
  have fields: "imageLoaded ?st" "crop_width (cropArea ?st) = 330"
    "crop_height (cropArea ?st) = 450" "dim_width (outputSize ?st) = 800"
    "dim_height (outputSize ?st) = 600" "scale ?st = 1"
    by (simp_all add: cropper_init_def)
  have pv: "preview_canvas fl_ranges ?st = Some (439, 600)"
    unfolding preview_canvas_def fields
    by (simp add: example_fit canvas_pixels_def example_width)
  have cf: "confirm_canvas fl_ranges ?st = Some (439, 600)"
    unfolding confirm_canvas_def fields
    by (simp add: fl_ranges_exact example_fit canvas_pixels_def example_width)
  have branch: "fl_ranges (800 / 600) > fl_ranges (330 / 450)"
    unfolding fl_ranges_ratio fl_ranges_requested by simp
  from render_aspect_ratio_within_one_pixel [where fl = fl_ranges and st = ?st,
      OF fl_ranges_error]
  obtain pw ph where "preview_canvas fl_ranges ?st = Some (pw, ph)"
    and "\<bar>real_of_int pw - 600 * (330 / 450)\<bar> < 1 + 800 / 2 ^ 51"
    unfolding fields using branch by auto
  with pv cf show ?thesis by simp
qed

text \<open>
  Claim C3 as stated, with the larger requested side shrunk and the other kept, fails in
  the default state after a capture of 1280 by 720 pixels is loaded (crop 1024 by 576,
  output size 800 by 600, scale 1): the requested width 800 is larger than the requested
  height 600, and both renders keep the width at 800 and shrink the height to 450.
\<close>

theorem shrinks_smaller_side_counterexample:
  "dim_height (outputSize (onload 1280 720 cropper_init))
      < dim_width (outputSize (onload 1280 720 cropper_init))
   \<and> updatePreview (onload 1280 720 cropper_init) =
      Some \<lparr>src_x = 128, src_y = 72, src_width = 1024, src_height = 576,
            finalWidth = 800, finalHeight = 450, jpeg_quality = 0.8\<rparr>
   \<and> snd (handleConfirm (\<lambda>r. Some ()) (onload 1280 720 cropper_init)) =
      [DrawImage \<lparr>src_x = 128, src_y = 72, src_width = 1024, src_height = 576,
            finalWidth = 800, finalHeight = 450, jpeg_quality = 0.8\<rparr>,
       OnConfirm ()]
   \<and> finalWidth (the (updatePreview (onload 1280 720 cropper_init)))
      = dim_width (outputSize (onload 1280 720 cropper_init))
   \<and> finalHeight (the (updatePreview (onload 1280 720 cropper_init)))
      < dim_height (outputSize (onload 1280 720 cropper_init))"
  by (simp add: updatePreview_def handleConfirm_def onload_def cropper_init_def Let_def)

text \<open>
  Claim C5 does not hold of the code: \<^verbatim>\<open>updatePreview\<close> never reads the scale, so the
  preview has the same size at every scale, while \<^verbatim>\<open>handleConfirm\<close> multiplies the
  output size by the scale.
\<close>

theorem updatePreview_ignores_scale:
  "updatePreview (st\<lparr>scale := s\<rparr>) = updatePreview st"
  by (simp add: updatePreview_def)

text \<open>
  At scale 0.5 in the default state after a capture of 1280 by 720 pixels, the preview
  is rendered at 800 by 450 and the confirmed image at 400 by 225.
\<close>

theorem updatePreview_ignores_scale_witness:
  "updatePreview ((onload 1280 720 cropper_init)\<lparr>scale := 0.5\<rparr>) =
      Some \<lparr>src_x = 128, src_y = 72, src_width = 1024, src_height = 576,
            finalWidth = 800, finalHeight = 450, jpeg_quality = 0.8\<rparr>
   \<and> snd (handleConfirm (\<lambda>r. Some ()) ((onload 1280 720 cropper_init)\<lparr>scale := 0.5\<rparr>)) =
      [DrawImage \<lparr>src_x = 128, src_y = 72, src_width = 1024, src_height = 576,
            finalWidth = 400, finalHeight = 225, jpeg_quality = 0.8\<rparr>,
       OnConfirm ()]"
  using updatePreview_ignores_scale [where st = "onload 1280 720 cropper_init" and s = "0.5"]
  by (simp add: updatePreview_def handleConfirm_def onload_def cropper_init_def Let_def)

section \<open>Properties of the photo table\<close>

text \<open>
  When both remote updates are applied, the rows of the product other than the chosen
  photo are not primary afterwards, and the rows of other products are as before.
\<close>

lemma set_primary_other_rows:
  "photoId \<notin> photo_id ` set photos \<Longrightarrow>
   filter (\<lambda>row. product_id row = productId \<and> is_primary row)
     (update_is_primary True (\<lambda>row. photo_id row = photoId)
        (update_is_primary False (\<lambda>row. product_id row = productId) photos)) = []"
  by (induction photos) (auto simp: update_is_primary_def)

lemma set_primary_rows:
  "distinct (map photo_id photos) \<Longrightarrow> p \<in> set photos \<Longrightarrow> product_id p = productId \<Longrightarrow>
   filter (\<lambda>row. product_id row = productId \<and> is_primary row)
     (update_is_primary True (\<lambda>row. photo_id row = photo_id p)
        (update_is_primary False (\<lambda>row. product_id row = productId) photos)) =
   [p\<lparr>is_primary := True\<rparr>]"
proof (induction photos)
  case Nil
  then show ?case by simp
next
  case (Cons a photos)
  show ?case
  proof (cases "a = p")
    case True
    with Cons.prems have "photo_id p \<notin> photo_id ` set photos" by simp
    from set_primary_other_rows [OF this, of productId] True Cons.prems show ?thesis
      by (simp add: update_is_primary_def)
  next
    case False
    with Cons.prems have "p \<in> set photos" "photo_id a \<noteq> photo_id p" by auto
    with Cons.IH Cons.prems show ?thesis
      by (simp add: update_is_primary_def)
  qed
qed

lemma set_primary_other_products:
  assumes "distinct (map photo_id photos)" and "p \<in> set photos" and "product_id p = productId"
  shows "filter (\<lambda>row. product_id row \<noteq> productId)
     (update_is_primary True (\<lambda>row. photo_id row = photo_id p)
        (update_is_primary False (\<lambda>row. product_id row = productId) photos)) =
   filter (\<lambda>row. product_id row \<noteq> productId) photos"
proof -
  have untouched: "filter (\<lambda>row. product_id row \<noteq> productId)
       (update_is_primary True (\<lambda>row. photo_id row = photoId)
          (update_is_primary False (\<lambda>row. product_id row = productId) rows)) =
     filter (\<lambda>row. product_id row \<noteq> productId) rows"
    if "\<forall>row \<in> set rows. product_id row \<noteq> productId \<longrightarrow> photo_id row \<noteq> photoId"
    for rows photoId
    using that by (induction rows) (auto simp: update_is_primary_def)
  from assms(1) have "inj_on photo_id (set photos)"
    by (simp add: distinct_map)
  with assms(2,3) have "\<forall>row \<in> set photos. product_id row \<noteq> productId \<longrightarrow>
      photo_id row \<noteq> photo_id p"
    by (auto dest: inj_onD)
  then show ?thesis by (rule untouched)
qed

text \<open>
  With the client configured and both remote updates applied, on a table with distinct
  photo identifiers where \<open>p\<close> is a photo of the product: whatever the primary flags
  were before, no error is returned, the primary photos of the product are exactly \<open>p\<close>
  with its flag set, the rows of other products are unchanged, and no row is added,
  removed or given another identifier or product.
\<close>

lemma setPrimaryPhoto_both_applied:
  assumes "distinct (map photo_id photos)"
    and "p \<in> set photos"
    and "photo_id p = photoId"
    and "product_id p = productId"
  shows "fst (setPrimaryPhoto True Applied Applied photoId productId photos) = None
    \<and> filter (\<lambda>row. product_id row = productId \<and> is_primary row)
        (snd (setPrimaryPhoto True Applied Applied photoId productId photos)) =
        [p\<lparr>is_primary := True\<rparr>]
    \<and> filter (\<lambda>row. product_id row \<noteq> productId)
        (snd (setPrimaryPhoto True Applied Applied photoId productId photos)) =
        filter (\<lambda>row. product_id row \<noteq> productId) photos
    \<and> map photo_id (snd (setPrimaryPhoto True Applied Applied photoId productId photos)) =
        map photo_id photos
    \<and> map product_id (snd (setPrimaryPhoto True Applied Applied photoId productId photos)) =
        map product_id photos"
proof -
  have ids: "map photo_id (update_is_primary v m rows) = map photo_id rows"
    and owners: "map product_id (update_is_primary v m rows) = map product_id rows" for v m rows
    by (simp_all add: update_is_primary_def)
  from set_primary_rows [OF assms(1,2,4)] set_primary_other_products [OF assms(1,2,4)] assms(3)
  show ?thesis
    by (simp add: setPrimaryPhoto_def Let_def ids owners)
qed

text \<open>
  Claim C2 does not hold of the code when the clearing update fails and the second
  update is applied. The result of the clearing update is dropped, so the function
  returns no error; here the photos \<open>a\<close> and \<open>c\<close> of product \<open>p1\<close> were primary, \<open>b\<close>
  is chosen, and afterwards all three photos of the product are primary.
\<close>

theorem setPrimaryPhoto_failed_clearing:
  "setPrimaryPhoto True (Failed ''timeout'') Applied ''b'' ''p1''
      [\<lparr>photo_id = ''a'', product_id = ''p1'', is_primary = True\<rparr>,
       \<lparr>photo_id = ''b'', product_id = ''p1'', is_primary = False\<rparr>,
       \<lparr>photo_id = ''c'', product_id = ''p1'', is_primary = True\<rparr>] =
     (None,
      [\<lparr>photo_id = ''a'', product_id = ''p1'', is_primary = True\<rparr>,
       \<lparr>photo_id = ''b'', product_id = ''p1'', is_primary = True\<rparr>,
       \<lparr>photo_id = ''c'', product_id = ''p1'', is_primary = True\<rparr>])
   \<and> length (filter (\<lambda>row. product_id row = ''p1'' \<and> is_primary row)
       (snd (setPrimaryPhoto True (Failed ''timeout'') Applied ''b'' ''p1''
         [\<lparr>photo_id = ''a'', product_id = ''p1'', is_primary = True\<rparr>,
          \<lparr>photo_id = ''b'', product_id = ''p1'', is_primary = False\<rparr>,
          \<lparr>photo_id = ''c'', product_id = ''p1'', is_primary = True\<rparr>]))) = 3"
  by (simp add: setPrimaryPhoto_def update_is_primary_def)

text \<open>
  \<^verbatim>\<open>setPrimaryPhotoSecure\<close> makes exactly one request, for the action
  \<^verbatim>\<open>setPrimary\<close>, and leaves the remote side as the endpoint left it.
\<close>

lemma setPrimaryPhotoSecure_one_request:
  "snd (snd (setPrimaryPhotoSecure fetch photoId productId w)) =
     [\<lparr>action = ''setPrimary'', action_photoId = photoId, action_productId = productId\<rparr>]
   \<and> fst (snd (setPrimaryPhotoSecure fetch photoId productId w)) =
     snd (fetch w \<lparr>action = ''setPrimary'', action_photoId = photoId,
                    action_productId = productId\<rparr>)"
  by (simp add: setPrimaryPhotoSecure_def Let_def split: prod.split fetch_outcome.split)

section \<open>Properties of the camera components\<close>

text \<open>Stopping tracks on the hardware, and counting the stop calls in a list of effects.\<close>

lemma replay_stops: "replay live (map TrackStop ts) = live - set ts"
  unfolding replay_def by (induction ts arbitrary: live) auto

lemma replay_append: "replay live (xs @ ys) = replay (replay live xs) ys"
  by (simp add: replay_def)

lemma count_stops: "count_list (map TrackStop ts) (TrackStop t) = count_list ts t"
  by (induction ts) auto

lemma count_distinct: "distinct ts \<Longrightarrow> t \<in> set ts \<Longrightarrow> count_list ts t = 1"
  by (induction ts) auto

text \<open>
  What \<^verbatim>\<open>startCamera\<close> of \<^verbatim>\<open>CameraCapture\<close> does before its request: it stops each
  track of the stream in its closure once, in order, and then makes the request. A track
  of another stream keeps capturing.
\<close>

lemma startCamera_begin_stops_closure_stream:
  assumes "stream closure = Some s" and "distinct (getTracks s)"
  shows "snd (startCamera_begin True closure st) =
        map TrackStop (getTracks s) @ [GetUserMedia (facingMode closure) 1920 1080]
    \<and> (\<forall>t \<in> set (getTracks s).
         count_list (snd (startCamera_begin True closure st)) (TrackStop t) = 1)
    \<and> replay live (map TrackStop (getTracks s)) = live - set (getTracks s)"
  using assms
  by (simp add: startCamera_begin_def Let_def count_stops count_distinct replay_stops)

text \<open>
  Claim C8 does not hold of the code: both components can leave two streams capturing.

  In \<^verbatim>\<open>CameraModal\<close>, \<^verbatim>\<open>startCamera\<close> never stops the stream it holds. With the
  video element mounted, the request is granted the stream with track 1 and
  \<^verbatim>\<open>video.play()\<close> rejects, so the error is shown with the stream held; the retry
  button runs \<^verbatim>\<open>startCamera\<close> again, which is granted the stream with track 2. No
  track is stopped, and the tracks 1 and 2 both capture.

  In \<^verbatim>\<open>CameraCapture\<close>, \<^verbatim>\<open>startCamera\<close> stops the stream of its closure and then
  awaits the request. In the preview step with a captured image and no stream,
  \<^verbatim>\<open>retakePhoto\<close> calls it, and the render that follows runs the open effect, which
  calls it again before the first request has ended. Both calls see no stream. When the
  two requests are granted the streams with the tracks 1 and 2, the second is stored
  over the first and the tracks 1 and 2 both capture.
\<close>

theorem startCamera_two_streams_capturing:
  "snd (modal_startCamera (Granted \<lparr>getTracks = [1]\<rparr>) (Some ''AbortError'')
        ((modal_init :: unit modal_state)\<lparr>modal_videoRef := Some None\<rparr>)) =
     [GetUserMedia Environment 1280 720, StreamGranted \<lparr>getTracks = [1]\<rparr>,
      CameraToast ''Errore nell'avvio della fotocamera'']
   \<and> streamRef (fst (modal_startCamera (Granted \<lparr>getTracks = [1]\<rparr>) (Some ''AbortError'')
        ((modal_init :: unit modal_state)\<lparr>modal_videoRef := Some None\<rparr>))) =
     Some \<lparr>getTracks = [1]\<rparr>
   \<and> snd (modal_startCamera (Granted \<lparr>getTracks = [2]\<rparr>) None
        (fst (modal_startCamera (Granted \<lparr>getTracks = [1]\<rparr>) (Some ''AbortError'')
          ((modal_init :: unit modal_state)\<lparr>modal_videoRef := Some None\<rparr>)))) =
     [GetUserMedia Environment 1280 720, StreamGranted \<lparr>getTracks = [2]\<rparr>]
   \<and> replay {}
       (snd (modal_startCamera (Granted \<lparr>getTracks = [1]\<rparr>) (Some ''AbortError'')
          ((modal_init :: unit modal_state)\<lparr>modal_videoRef := Some None\<rparr>))
        @ snd (modal_startCamera (Granted \<lparr>getTracks = [2]\<rparr>) None
          (fst (modal_startCamera (Granted \<lparr>getTracks = [1]\<rparr>) (Some ''AbortError'')
            ((modal_init :: unit modal_state)\<lparr>modal_videoRef := Some None\<rparr>))))) = {1, 2}
   \<and> snd (retakePhoto
        ((capture_init :: unit capture_state)\<lparr>currentStep := Preview, capturedImage := Some ()\<rparr>)
        ((capture_init :: unit capture_state)\<lparr>currentStep := Preview, capturedImage := Some ()\<rparr>)) =
     [GetUserMedia Environment 1920 1080]
   \<and> snd (openEffect True (fst (retakePhoto
        ((capture_init :: unit capture_state)\<lparr>currentStep := Preview, capturedImage := Some ()\<rparr>)
        ((capture_init :: unit capture_state)\<lparr>currentStep := Preview, capturedImage := Some ()\<rparr>)))) =
     [GetUserMedia Environment 1920 1080]
   \<and> stream (fst (startCamera_end (Granted \<lparr>getTracks = [2]\<rparr>)
        (fst (startCamera_end (Granted \<lparr>getTracks = [1]\<rparr>)
          (fst (openEffect True (fst (retakePhoto
            ((capture_init :: unit capture_state)\<lparr>currentStep := Preview, capturedImage := Some ()\<rparr>)
            ((capture_init :: unit capture_state)\<lparr>currentStep := Preview, capturedImage := Some ()\<rparr>))))))))) =
     Some \<lparr>getTracks = [2]\<rparr>
   \<and> replay {}
       ([GetUserMedia Environment 1920 1080, GetUserMedia Environment 1920 1080]
        @ snd (startCamera_end (Granted \<lparr>getTracks = [1]\<rparr>)
            (fst (openEffect True (fst (retakePhoto
              ((capture_init :: unit capture_state)\<lparr>currentStep := Preview, capturedImage := Some ()\<rparr>)
              ((capture_init :: unit capture_state)\<lparr>currentStep := Preview, capturedImage := Some ()\<rparr>))))))
        @ snd (startCamera_end (Granted \<lparr>getTracks = [2]\<rparr>)
            (fst (startCamera_end (Granted \<lparr>getTracks = [1]\<rparr>)
              (fst (openEffect True (fst (retakePhoto
                ((capture_init :: unit capture_state)\<lparr>currentStep := Preview, capturedImage := Some ()\<rparr>)
                ((capture_init :: unit capture_state)\<lparr>currentStep := Preview, capturedImage := Some ()\<rparr>))))))))) =
     {1, 2}"
  by (auto simp: modal_startCamera_def modal_errorMessage_def modal_init_def
      retakePhoto_def openEffect_def startCamera_begin_def startCamera_end_def capture_init_def
      replay_def Let_def)

text \<open>
  Claim C9, as the code has it. In \<^verbatim>\<open>CameraModal\<close>, \<^verbatim>\<open>stopCamera\<close> called twice in a
  row is \<^verbatim>\<open>stopCamera\<close> called once: the first call stops every track of the held
  stream and clears the stream reference, the second stops nothing and leaves the state
  as the first left it. With no stream held it stops no track, and still sets
  \<open>isActive\<close> to false, the error to \<^verbatim>\<open>null\<close> and the video's \<^verbatim>\<open>srcObject\<close> to
  \<^verbatim>\<open>null\<close>. In \<^verbatim>\<open>CameraCapture\<close>, the \<^verbatim>\<open>stopCamera\<close> made by the render of the
  current state stops every track of the held stream, so that none of them captures, and
  clears the stream; with no stream held it changes nothing. Called a second time, be it
  the same callback or the one of the next render, it leaves the state and the hardware
  as the first call left them.
\<close>

theorem stopCamera_idempotent:
  "fst (modal_stopCamera (fst (modal_stopCamera m))) = fst (modal_stopCamera m)
   \<and> snd (modal_stopCamera (fst (modal_stopCamera m))) = []
   \<and> streamRef (fst (modal_stopCamera m)) = None
   \<and> snd (modal_stopCamera m) =
       (case streamRef m of Some s \<Rightarrow> map TrackStop (getTracks s) | None \<Rightarrow> [])
   \<and> (streamRef m = None \<longrightarrow>
        modal_stopCamera m =
          (m\<lparr>modal_videoRef := (case modal_videoRef m of Some src \<Rightarrow> Some None | None \<Rightarrow> None),
             isActive := False, modal_error := None\<rparr>, []))
   \<and> stream (fst (stopCamera st st)) = None
   \<and> snd (stopCamera st st) =
       (case stream st of Some s \<Rightarrow> map TrackStop (getTracks s) | None \<Rightarrow> [])
   \<and> replay live (snd (stopCamera st st)) =
       (case stream st of Some s \<Rightarrow> live - set (getTracks s) | None \<Rightarrow> live)
   \<and> (stream st = None \<longrightarrow> stopCamera st st = (st, []))
   \<and> fst (stopCamera st (fst (stopCamera st st))) = fst (stopCamera st st)
   \<and> replay live (snd (stopCamera st st) @ snd (stopCamera st (fst (stopCamera st st)))) =
       replay live (snd (stopCamera st st))
   \<and> stopCamera (fst (stopCamera st st)) (fst (stopCamera st st)) = (fst (stopCamera st st), [])"
proof -
  have twice: "replay live (map TrackStop ts @ map TrackStop ts) = replay live (map TrackStop ts)"
    for ts
    by (simp add: replay_append replay_stops)
  have empty: "replay live [] = live"
    by (simp add: replay_def)
  show ?thesis
    by (simp add: stopCamera_def modal_stopCamera_def Let_def twice empty replay_stops
        split: option.split)
qed

text \<open>
  The theorem at states with no stream (the initial state of \<^verbatim>\<open>CameraCapture\<close>, and
  \<^verbatim>\<open>CameraModal\<close> with an error shown) and at states of both components that hold a
  stream with the tracks 1 and 2.
\<close>

theorem stopCamera_idempotent_witness:
  "stopCamera (capture_init :: unit capture_state) capture_init = (capture_init, [])
   \<and> modal_stopCamera
       ((modal_init :: unit modal_state)\<lparr>modal_error := Some ''Permesso fotocamera negato''\<rparr>) =
     ((modal_init :: unit modal_state)\<lparr>modal_error := Some ''Permesso fotocamera negato''\<rparr>
        \<lparr>modal_videoRef := None, isActive := False, modal_error := None\<rparr>, [])
   \<and> snd (stopCamera
        ((capture_init :: unit capture_state)\<lparr>stream := Some \<lparr>getTracks = [1, 2]\<rparr>\<rparr>)
        ((capture_init :: unit capture_state)\<lparr>stream := Some \<lparr>getTracks = [1, 2]\<rparr>\<rparr>)) =
     [TrackStop 1, TrackStop 2]
   \<and> stream (fst (stopCamera
        ((capture_init :: unit capture_state)\<lparr>stream := Some \<lparr>getTracks = [1, 2]\<rparr>\<rparr>)
        ((capture_init :: unit capture_state)\<lparr>stream := Some \<lparr>getTracks = [1, 2]\<rparr>\<rparr>))) = None
   \<and> replay {1, 2} (snd (stopCamera
        ((capture_init :: unit capture_state)\<lparr>stream := Some \<lparr>getTracks = [1, 2]\<rparr>\<rparr>)
        ((capture_init :: unit capture_state)\<lparr>stream := Some \<lparr>getTracks = [1, 2]\<rparr>\<rparr>))) = {}
   \<and> snd (modal_stopCamera
        ((modal_init :: unit modal_state)\<lparr>streamRef := Some \<lparr>getTracks = [1, 2]\<rparr>,
           isActive := True\<rparr>)) = [TrackStop 1, TrackStop 2]
   \<and> snd (modal_stopCamera (fst (modal_stopCamera
        ((modal_init :: unit modal_state)\<lparr>streamRef := Some \<lparr>getTracks = [1, 2]\<rparr>,
           isActive := True\<rparr>)))) = []"
proof -
  note none = stopCamera_idempotent [where st = "capture_init :: unit capture_state"
      and m = "(modal_init :: unit modal_state)\<lparr>modal_error := Some ''Permesso fotocamera negato''\<rparr>"
      and live = "{}"]
  note held = stopCamera_idempotent [where
      st = "(capture_init :: unit capture_state)\<lparr>stream := Some \<lparr>getTracks = [1, 2]\<rparr>\<rparr>"
      and m = "(modal_init :: unit modal_state)\<lparr>streamRef := Some \<lparr>getTracks = [1, 2]\<rparr>,
           isActive := True\<rparr>"
      and live = "{1, 2}"]
  have "stream (capture_init :: unit capture_state) = None"
    by (simp add: capture_init_def)
  with none have 1: "stopCamera (capture_init :: unit capture_state) capture_init = (capture_init, [])"
    by blast
  have "streamRef ((modal_init :: unit modal_state)
      \<lparr>modal_error := Some ''Permesso fotocamera negato''\<rparr>) = None"
    by (simp add: modal_init_def)
  with none have 2: "modal_stopCamera
       ((modal_init :: unit modal_state)\<lparr>modal_error := Some ''Permesso fotocamera negato''\<rparr>) =
     ((modal_init :: unit modal_state)\<lparr>modal_error := Some ''Permesso fotocamera negato''\<rparr>
        \<lparr>modal_videoRef := None, isActive := False, modal_error := None\<rparr>, [])"
    by (simp add: modal_init_def)
  from held have 3: "snd (stopCamera
        ((capture_init :: unit capture_state)\<lparr>stream := Some \<lparr>getTracks = [1, 2]\<rparr>\<rparr>)
        ((capture_init :: unit capture_state)\<lparr>stream := Some \<lparr>getTracks = [1, 2]\<rparr>\<rparr>)) =
     [TrackStop 1, TrackStop 2]"
    by simp
  from held have 4: "stream (fst (stopCamera
        ((capture_init :: unit capture_state)\<lparr>stream := Some \<lparr>getTracks = [1, 2]\<rparr>\<rparr>)
        ((capture_init :: unit capture_state)\<lparr>stream := Some \<lparr>getTracks = [1, 2]\<rparr>\<rparr>))) = None"
    by blast
  from held have 5: "replay {1, 2} (snd (stopCamera
        ((capture_init :: unit capture_state)\<lparr>stream := Some \<lparr>getTracks = [1, 2]\<rparr>\<rparr>)
        ((capture_init :: unit capture_state)\<lparr>stream := Some \<lparr>getTracks = [1, 2]\<rparr>\<rparr>))) = {}"
    by (simp add: replay_def)
  from held have 6: "snd (modal_stopCamera
        ((modal_init :: unit modal_state)\<lparr>streamRef := Some \<lparr>getTracks = [1, 2]\<rparr>,
           isActive := True\<rparr>)) = [TrackStop 1, TrackStop 2]"
    by simp
  from held have 7: "snd (modal_stopCamera (fst (modal_stopCamera
        ((modal_init :: unit modal_state)\<lparr>streamRef := Some \<lparr>getTracks = [1, 2]\<rparr>,
           isActive := True\<rparr>)))) = []"
    by blast
  from 1 2 3 4 5 6 7 show ?thesis by blast
qed

text \<open>
  Claim C9 as stated, with \<^verbatim>\<open>stopCamera\<close> a no-op when no stream is held, fails for
  \<^verbatim>\<open>CameraModal\<close> after a refused camera permission: no stream is held and the error
  ``Permesso fotocamera negato'' is shown, and \<^verbatim>\<open>stopCamera\<close> changes the state by
  clearing the error.
\<close>

theorem modal_stopCamera_not_noop_counterexample:
  "streamRef (fst (modal_startCamera (Rejected ''NotAllowedError'') None
        (modal_init :: unit modal_state))) = None
   \<and> modal_error (fst (modal_startCamera (Rejected ''NotAllowedError'') None
        (modal_init :: unit modal_state))) = Some ''Permesso fotocamera negato''
   \<and> fst (modal_stopCamera (fst (modal_startCamera (Rejected ''NotAllowedError'') None
        (modal_init :: unit modal_state))))
      \<noteq> fst (modal_startCamera (Rejected ''NotAllowedError'') None
        (modal_init :: unit modal_state))
   \<and> modal_error (fst (modal_stopCamera (fst (modal_startCamera (Rejected ''NotAllowedError'')
        None (modal_init :: unit modal_state))))) = None"
  by (simp add: modal_startCamera_def modal_stopCamera_def modal_errorMessage_def
      modal_init_def Let_def)

text \<open>
  The cleanup that \<^verbatim>\<open>CameraCapture\<close> runs at unmount calls the \<^verbatim>\<open>stopCamera\<close> of
  the first render, which saw no stream: whatever stream is held then, it stops no track
  and leaves the state as it is.
\<close>

lemma unmountCleanup_stops_nothing:
  "unmountCleanup st = (st, [])"
  by (simp add: unmountCleanup_def stopCamera_def capture_init_def)

end
